theory Spec2Isabelle
  imports Complex_Main "HOL-Library.Monad_Syntax"
begin

section \<open>Two-player snake: the tick engine of SnakeGame.cpp\<close>

text \<open>
  The development embeds the game logic of \<^verbatim>\<open>SnakeGame/SnakeGame.cpp\<close>: the helper
  \<^verbatim>\<open>elementInDeque\<close>, the classes \<^verbatim>\<open>Food\<close>, \<^verbatim>\<open>Snake\<close> and \<^verbatim>\<open>Game\<close>, the
  global flags, and the steering block of \<^verbatim>\<open>main\<close>. Drawing, textures and sounds have
  no effect on the state and are left out.

  The library raylib is an external collaborator. Its random generator and its clock are
  modelled as two sequences that the program consumes in order (record \<open>World\<close>); its
  vector functions are modelled on integer pairs.
\<close>

subsection \<open>Vectors and settings\<close>

text \<open>
  \<^verbatim>\<open>Vector2\<close> is a pair of floats. Every coordinate the game stores is a whole number of
  small size (a start cell, a sample of \<^verbatim>\<open>GetRandomValue\<close>, the sentinel, or a sum of
  those with unit steps), which a float holds exactly, so a pair of integers is used.
  On such values \<^verbatim>\<open>Vector2Equals\<close> (an epsilon comparison) is plain equality.
\<close>

type_synonym Vector2 = "int \<times> int"

definition Vector2Add :: "Vector2 \<Rightarrow> Vector2 \<Rightarrow> Vector2" where
  "Vector2Add v1 v2 = (fst v1 + fst v2, snd v1 + snd v2)"

definition Vector2Subtract :: "Vector2 \<Rightarrow> Vector2 \<Rightarrow> Vector2" where
  "Vector2Subtract v1 v2 = (fst v1 - fst v2, snd v1 - snd v2)"

definition Vector2Equals :: "Vector2 \<Rightarrow> Vector2 \<Rightarrow> bool" where
  "Vector2Equals p q = (fst p = fst q \<and> snd p = snd q)"

definition cellCount :: int where
  "cellCount = 25"

subsection \<open>The outside world: random numbers and time\<close>

text \<open>
  \<open>randoms\<close> is the sequence of raw numbers the generator will produce and \<open>drawn\<close>
  counts how many were consumed; \<open>clock\<close> is the sequence of values that successive
  calls of \<^verbatim>\<open>GetTime\<close> will return and \<open>reads\<close> counts the calls made.
\<close>

record World =
  randoms :: "nat \<Rightarrow> nat"
  drawn :: nat
  clock :: "nat \<Rightarrow> real"
  reads :: nat

text \<open>
  \<^verbatim>\<open>GetRandomValue(min, max)\<close> returns a value between \<open>min\<close> and \<open>max\<close>, both
  included; raylib reduces the raw number modulo the width of the range.
\<close>

definition GetRandomValue :: "int \<Rightarrow> int \<Rightarrow> World \<Rightarrow> int \<times> World" where
  "GetRandomValue lo hi w =
     (lo + int (randoms w (drawn w) mod nat (hi - lo + 1)), w\<lparr>drawn := Suc (drawn w)\<rparr>)"

definition GetTime :: "World \<Rightarrow> real \<times> World" where
  "GetTime w = (clock w (reads w), w\<lparr>reads := Suc (reads w)\<rparr>)"

text \<open>\<^verbatim>\<open>eventTriggered(interval, lastUpdateTime)\<close>: the second argument is passed by
  reference, so the model returns its new value beside the answer.\<close>

definition eventTriggered :: "real \<Rightarrow> real \<Rightarrow> World \<Rightarrow> bool \<times> real \<times> World" where
  "eventTriggered interval lastUpdateTime w =
     (let (currentTime, w') = GetTime w in
      if currentTime - lastUpdateTime \<ge> interval then (True, currentTime, w')
      else (False, lastUpdateTime, w'))"

subsection \<open>Membership in a deque\<close>

fun elementInDeque :: "Vector2 \<Rightarrow> Vector2 list \<Rightarrow> bool" where
  "elementInDeque element [] = False"
| "elementInDeque element (d # ds) =
     (if Vector2Equals d element then True else elementInDeque element ds)"

subsection \<open>Food\<close>

definition randomCell :: "World \<Rightarrow> Vector2 \<times> World" where
  "randomCell w =
     (let (x, w1) = GetRandomValue 0 (cellCount - 1) w;
          (y, w2) = GetRandomValue 0 (cellCount - 1) w1
      in ((x, y), w2))"

text \<open>
  The sampling loop of \<^verbatim>\<open>GenRandPos\<close> has no bound on its retries. The result \<open>None\<close>
  stands for a loop that never returns.
\<close>

partial_function (option) GenRandPos_loop ::
  "Vector2 \<Rightarrow> Vector2 list \<Rightarrow> Vector2 list \<Rightarrow> World \<Rightarrow> (Vector2 \<times> World) option" where
  "GenRandPos_loop position snake1_body snake2_body w =
     (if elementInDeque position snake1_body \<or> elementInDeque position snake2_body
      then GenRandPos_loop (fst (randomCell w)) snake1_body snake2_body (snd (randomCell w))
      else Some (position, w))"

definition GenRandPos :: "Vector2 list \<Rightarrow> Vector2 list \<Rightarrow> World \<Rightarrow> (Vector2 \<times> World) option" where
  "GenRandPos snake1_body snake2_body w =
     GenRandPos_loop (fst (randomCell w)) snake1_body snake2_body (snd (randomCell w))"

subsection \<open>Snake\<close>

record Snake =
  body :: "Vector2 list"
  direction :: Vector2
  addSegment :: bool

text \<open>The constructor; the colour is presentation only.\<close>

definition Snake_init :: "Vector2 \<Rightarrow> Vector2 \<Rightarrow> Snake" where
  "Snake_init startPos startDirection =
     (let b1 = [startPos];
          b2 = b1 @ [Vector2Subtract startPos startDirection];
          b3 = b2 @ [Vector2Subtract (last b2) startDirection]
      in \<lparr>body = b3, direction = startDirection, addSegment = False\<rparr>)"

text \<open>
  \<^verbatim>\<open>Snake::update\<close> reads \<^verbatim>\<open>body[0]\<close> without a check, which is undefined on an empty
  deque; \<open>hd\<close> is unspecified there as well. Every snake the program builds has three
  segments and no operation shortens one (lemmas \<open>Snake_init_length\<close>,
  \<open>Snake_reset_length\<close>, \<open>Snake_update_length_ge\<close>), so the theorems assume a
  non-empty body.
\<close>

definition Snake_update :: "Snake \<Rightarrow> Snake" where
  "Snake_update s =
     (let s1 = s\<lparr>body := Vector2Add (hd (body s)) (direction s) # body s\<rparr> in
      if \<not> addSegment s1 then s1\<lparr>body := butlast (body s1)\<rparr>
      else s1\<lparr>addSegment := False\<rparr>)"

definition Snake_reset :: "Vector2 \<Rightarrow> Vector2 \<Rightarrow> Snake \<Rightarrow> Snake" where
  "Snake_reset startPos startDirection s =
     (let s0 = s\<lparr>body := []\<rparr>;
          s1 = s0\<lparr>direction := startDirection\<rparr>;
          s2 = s1\<lparr>body := body s1 @ [startPos]\<rparr>;
          s3 = s2\<lparr>body := body s2 @ [Vector2Subtract startPos startDirection]\<rparr>;
          s4 = s3\<lparr>body := body s3 @ [Vector2Subtract (last (body s3)) startDirection]\<rparr>
      in s4)"

subsection \<open>Game\<close>

text \<open>
  The record holds the members of \<^verbatim>\<open>Game\<close> (the position of each \<^verbatim>\<open>Food\<close> object is
  its only member that matters here), the global variables of the file, and the world.
  Scores are C++ \<^verbatim>\<open>int\<close>s; a tick adds at most 6, so they stay far from the limits of
  the type and are modelled as integers. Times are \<^verbatim>\<open>double\<close>s, modelled as reals.
\<close>

record Game =
  snake1 :: Snake
  snake2 :: Snake
  food_pos :: Vector2
  powerup_pos :: Vector2
  running :: bool
  score1 :: int
  score2 :: int
  showPowerup :: bool
  powerupOnTime :: real
  powerupOffTime :: real
  powerupTimeGap :: real
  gameUpdateTime :: real
  gameOver :: bool
  allowMove :: bool
  winnerMessage :: string
  world :: World

text \<open>
  Several member functions take a snake and its score by reference and are called once
  for each player; the model passes the player and reads or writes the matching fields.
\<close>

datatype Player = P1 | P2

fun snake_of :: "Player \<Rightarrow> Game \<Rightarrow> Snake" where
  "snake_of P1 g = snake1 g"
| "snake_of P2 g = snake2 g"

fun set_snake :: "Player \<Rightarrow> Snake \<Rightarrow> Game \<Rightarrow> Game" where
  "set_snake P1 s g = g\<lparr>snake1 := s\<rparr>"
| "set_snake P2 s g = g\<lparr>snake2 := s\<rparr>"

fun score_of :: "Player \<Rightarrow> Game \<Rightarrow> int" where
  "score_of P1 g = score1 g"
| "score_of P2 g = score2 g"

fun set_score :: "Player \<Rightarrow> int \<Rightarrow> Game \<Rightarrow> Game" where
  "set_score P1 n g = g\<lparr>score1 := n\<rparr>"
| "set_score P2 n g = g\<lparr>score2 := n\<rparr>"

text \<open>
  The constructor. Members are initialised in the order of their declaration: the two
  snakes, the food, the power-up (both placed by \<^verbatim>\<open>GenRandPos\<close>), then the flags and
  timers, and last the gap drawn by \<^verbatim>\<open>GetRandomValue(15, 16)\<close>. The globals have
  their initial values.
\<close>

definition Game_init :: "World \<Rightarrow> Game option" where
  "Game_init w0 =
     (let s1 = Snake_init (6, 9) (1, 0);
          s2 = Snake_init (18, 9) (- 1, 0)
      in do {
        (fpos, w1) \<leftarrow> GenRandPos (body s1) (body s2) w0;
        (ppos, w2) \<leftarrow> GenRandPos (body s1) (body s2) w1;
        let (gap, w3) = GetRandomValue 15 16 w2;
        Some \<lparr>snake1 = s1, snake2 = s2, food_pos = fpos, powerup_pos = ppos,
              running = True, score1 = 0, score2 = 0, showPowerup = False,
              powerupOnTime = 0, powerupOffTime = 0, powerupTimeGap = real_of_int gap,
              gameUpdateTime = 0, gameOver = False, allowMove = False,
              winnerMessage = [], world = w3\<rparr>
      })"

definition checkFoodCollision :: "Player \<Rightarrow> Game \<Rightarrow> Game option" where
  "checkFoodCollision p g =
     (if Vector2Equals (hd (body (snake_of p g))) (food_pos g) then do {
        (pos, w') \<leftarrow> GenRandPos (body (snake1 g)) (body (snake2 g)) (world g);
        let g1 = g\<lparr>food_pos := pos, world := w'\<rparr>;
        let g2 = set_snake p ((snake_of p g1)\<lparr>addSegment := True\<rparr>) g1;
        Some (set_score p (score_of p g2 + 1) g2)
      } else Some g)"

definition checkPowerupCollision :: "Player \<Rightarrow> Game \<Rightarrow> Game" where
  "checkPowerupCollision p g =
     (if Vector2Equals (hd (body (snake_of p g))) (powerup_pos g) then
        (let g1 = g\<lparr>powerup_pos := (- 1, - 1)\<rparr>;
             g2 = g1\<lparr>showPowerup := False\<rparr>;
             g3 = set_snake p ((snake_of p g2)\<lparr>addSegment := True\<rparr>) g2
         in set_score p (score_of p g3 + 5) g3)
      else g)"

definition isOutOfBounds :: "Snake \<Rightarrow> bool" where
  "isOutOfBounds snake =
     (fst (hd (body snake)) < 0 \<or> fst (hd (body snake)) \<ge> cellCount \<or>
      snd (hd (body snake)) < 0 \<or> snd (hd (body snake)) \<ge> cellCount)"

definition selfCollision :: "Snake \<Rightarrow> bool" where
  "selfCollision snake =
     (let headlessBody = tl (body snake) in elementInDeque (hd (body snake)) headlessBody)"

definition declareWinner :: "int \<Rightarrow> Game \<Rightarrow> Game" where
  "declareWinner winner g =
     g\<lparr>running := False, gameOver := True,
       winnerMessage := (if winner = 1 then ''Player 1 Wins!'' else ''Player 2 Wins!'')\<rparr>"

text \<open>Six \<^verbatim>\<open>if\<close> statements in a row, none with an \<^verbatim>\<open>else\<close> or a \<^verbatim>\<open>return\<close>.\<close>

definition checkCollisions :: "Game \<Rightarrow> Game" where
  "checkCollisions g =
     (let g1 = (if isOutOfBounds (snake1 g) then declareWinner 2 g else g);
          g2 = (if isOutOfBounds (snake2 g1) then declareWinner 1 g1 else g1);
          g3 = (if selfCollision (snake1 g2) then declareWinner 2 g2 else g2);
          g4 = (if selfCollision (snake2 g3) then declareWinner 1 g3 else g3);
          g5 = (if elementInDeque (hd (body (snake1 g4))) (body (snake2 g4))
                then declareWinner 2 g4 else g4);
          g6 = (if elementInDeque (hd (body (snake2 g5))) (body (snake1 g5))
                then declareWinner 1 g5 else g5)
      in g6)"

text \<open>In both toggles \<^verbatim>\<open>&&\<close> short-circuits: the clock is read only when the flag test
  passes.\<close>

definition togglePowerupOff :: "Game \<Rightarrow> Game" where
  "togglePowerupOff g =
     (if showPowerup g then
        (let (triggered, t, w') = eventTriggered 10 (powerupOnTime g) (world g);
             g1 = g\<lparr>powerupOnTime := t, world := w'\<rparr>
         in if triggered then g1\<lparr>showPowerup := False, powerup_pos := (- 1, - 1)\<rparr> else g1)
      else g)"

definition togglePowerupOn :: "Game \<Rightarrow> Game option" where
  "togglePowerupOn g =
     (if \<not> showPowerup g then
        (let (triggered, t, w') = eventTriggered (powerupTimeGap g) (powerupOffTime g) (world g);
             g1 = g\<lparr>powerupOffTime := t, world := w'\<rparr>
         in if triggered then
              (let g2 = g1\<lparr>showPowerup := True\<rparr>;
                   (now, w2) = GetTime (world g2);
                   g3 = g2\<lparr>powerupOnTime := now, world := w2\<rparr>
               in do {
                 (pos, w3) \<leftarrow> GenRandPos (body (snake1 g3)) (body (snake2 g3)) (world g3);
                 Some (g3\<lparr>powerup_pos := pos, world := w3\<rparr>)
               })
            else Some g1)
      else Some g)"

definition Game_update :: "Game \<Rightarrow> Game option" where
  "Game_update g =
     (if running g then do {
        let g1 = g\<lparr>snake1 := Snake_update (snake1 g)\<rparr>;
        let g2 = g1\<lparr>snake2 := Snake_update (snake2 g1)\<rparr>;
        g3 \<leftarrow> checkFoodCollision P1 g2;
        g4 \<leftarrow> checkFoodCollision P2 g3;
        let g5 = checkPowerupCollision P1 g4;
        let g6 = checkPowerupCollision P2 g5;
        let g7 = checkCollisions g6;
        let g8 = togglePowerupOff g7;
        togglePowerupOn g8
      } else Some g)"

definition Game_reset :: "Game \<Rightarrow> Game option" where
  "Game_reset g =
     (let g1 = g\<lparr>snake1 := Snake_reset (6, 9) (1, 0) (snake1 g)\<rparr>;
          g2 = g1\<lparr>snake2 := Snake_reset (18, 9) (- 1, 0) (snake2 g1)\<rparr>
      in do {
        (pos, w') \<leftarrow> GenRandPos (body (snake1 g2)) (body (snake2 g2)) (world g2);
        Some (g2\<lparr>food_pos := pos, world := w', powerup_pos := (- 1, - 1),
                 showPowerup := False, score1 := 0, score2 := 0, running := True,
                 gameOver := False, winnerMessage := []\<rparr>)
      })"

subsection \<open>The steering block of main\<close>

datatype Key = KEY_UP | KEY_DOWN | KEY_RIGHT | KEY_LEFT | KEY_W | KEY_S | KEY_D | KEY_A
  | KEY_SPACE

text \<open>The body shared by the eight branches: store the direction, clear \<^verbatim>\<open>allowMove\<close>.\<close>

definition turn :: "Player \<Rightarrow> Vector2 \<Rightarrow> Game \<Rightarrow> Game" where
  "turn p d g = (set_snake p ((snake_of p g)\<lparr>direction := d\<rparr>) g)\<lparr>allowMove := False\<rparr>"

text \<open>Lines 310 to 346; \<open>IsKeyPressed\<close> tells which keys went down in this frame.\<close>

definition steering :: "(Key \<Rightarrow> bool) \<Rightarrow> Game \<Rightarrow> Game" where
  "steering IsKeyPressed g =
     (if \<not> gameOver g \<and> allowMove g then
        (let a1 = (if IsKeyPressed KEY_UP \<and> snd (direction (snake1 g)) \<noteq> 1
                   then turn P1 (0, - 1) g else g);
             a2 = (if IsKeyPressed KEY_DOWN \<and> snd (direction (snake1 a1)) \<noteq> - 1
                   then turn P1 (0, 1) a1 else a1);
             a3 = (if IsKeyPressed KEY_RIGHT \<and> fst (direction (snake1 a2)) \<noteq> - 1
                   then turn P1 (1, 0) a2 else a2);
             a4 = (if IsKeyPressed KEY_LEFT \<and> fst (direction (snake1 a3)) \<noteq> 1
                   then turn P1 (- 1, 0) a3 else a3);
             b1 = (if IsKeyPressed KEY_W \<and> snd (direction (snake2 a4)) \<noteq> 1
                   then turn P2 (0, - 1) a4 else a4);
             b2 = (if IsKeyPressed KEY_S \<and> snd (direction (snake2 b1)) \<noteq> - 1
                   then turn P2 (0, 1) b1 else b1);
             b3 = (if IsKeyPressed KEY_D \<and> fst (direction (snake2 b2)) \<noteq> - 1
                   then turn P2 (1, 0) b2 else b2);
             b4 = (if IsKeyPressed KEY_A \<and> fst (direction (snake2 b3)) \<noteq> 1
                   then turn P2 (- 1, 0) b3 else b3)
         in b4)
      else g)"

text \<open>One pass of the loop of \<^verbatim>\<open>main\<close>, without the drawing.\<close>

definition main_frame :: "(Key \<Rightarrow> bool) \<Rightarrow> Game \<Rightarrow> Game option" where
  "main_frame IsKeyPressed g = do {
     g1 \<leftarrow> (if \<not> gameOver g then
              (let (triggered, t, w') = eventTriggered 0.2 (gameUpdateTime g) (world g);
                   g' = g\<lparr>gameUpdateTime := t, world := w'\<rparr>
               in if triggered then Game_update (g'\<lparr>allowMove := True\<rparr>) else Some g')
            else Some g);
     g2 \<leftarrow> (if gameOver g1 \<and> IsKeyPressed KEY_SPACE then Game_reset g1 else Some g1);
     Some (steering IsKeyPressed g2)
   }"

section \<open>Notions used in the statements\<close>

text \<open>A cell of the grid: both coordinates in \<open>[0, cellCount)\<close>.\<close>

definition in_grid :: "Vector2 \<Rightarrow> bool" where
  "in_grid p = (0 \<le> fst p \<and> fst p < cellCount \<and> 0 \<le> snd p \<and> snd p < cellCount)"

text \<open>The test of the sampling loop: the cell lies in one of the two bodies.\<close>

definition occupied :: "Vector2 list \<Rightarrow> Vector2 list \<Rightarrow> Vector2 \<Rightarrow> bool" where
  "occupied b1 b2 p = (elementInDeque p b1 \<or> elementInDeque p b2)"

text \<open>The cells that successive calls of \<^verbatim>\<open>randomCell\<close> return, starting in world \<open>w\<close>.\<close>

fun nth_cell :: "World \<Rightarrow> nat \<Rightarrow> Vector2" where
  "nth_cell w 0 = fst (randomCell w)"
| "nth_cell w (Suc k) = nth_cell (snd (randomCell w)) k"

text \<open>All cells of the grid, and two bodies that leave none of them free.\<close>

definition all_cells :: "Vector2 list" where
  "all_cells = List.product [0..cellCount - 1] [0..cellCount - 1]"

definition jointly_cover :: "Vector2 list \<Rightarrow> Vector2 list \<Rightarrow> bool" where
  "jointly_cover b1 b2 = list_all (occupied b1 b2) all_cells"

text \<open>The head a snake will have after its next \<^verbatim>\<open>Snake::update\<close>.\<close>

definition next_head :: "Snake \<Rightarrow> Vector2" where
  "next_head s = Vector2Add (hd (body s)) (direction s)"

text \<open>
  The six rules of the collision check in the order of the source, each a condition on
  the state after movement with the winner it declares, and the winners of the rules
  that match, in that order.
\<close>

definition collision_rules :: "Game \<Rightarrow> (bool \<times> int) list" where
  "collision_rules g =
     [(isOutOfBounds (snake1 g), 2),
      (isOutOfBounds (snake2 g), 1),
      (selfCollision (snake1 g), 2),
      (selfCollision (snake2 g), 1),
      (elementInDeque (hd (body (snake1 g))) (body (snake2 g)), 2),
      (elementInDeque (hd (body (snake2 g))) (body (snake1 g)), 1)]"

definition matching_winners :: "Game \<Rightarrow> int list" where
  "matching_winners g = map snd (filter fst (collision_rules g))"








text \<open>The state after both snakes have advanced: the first two statements of
  \<^verbatim>\<open>Game::update\<close>.\<close>

definition moved :: "Game \<Rightarrow> Game" where
  "moved g = g\<lparr>snake1 := Snake_update (snake1 g), snake2 := Snake_update (snake2 g)\<rparr>"

section \<open>Example states\<close>

text \<open>The two starting bodies, and worlds whose first samples are known.\<close>

definition start_body1 :: "Vector2 list" where
  "start_body1 = [(6, 9), (5, 9), (4, 9)]"

definition start_body2 :: "Vector2 list" where
  "start_body2 = [(18, 9), (19, 9), (20, 9)]"

text \<open>Raw numbers 6, 9, 5, 9, 18, 9, 3, 4, then zeros: three samples that fall on a snake,
  then the free cell \<open>(3, 4)\<close>. The clock always shows 26.\<close>

definition retry_world :: World where
  "retry_world = \<lparr>randoms = (\<lambda>n. if n < 8 then [6, 9, 5, 9, 18, 9, 3, 4] ! n else 0),
     drawn = 0, clock = (\<lambda>n. 26), reads = 0\<rparr>"

text \<open>A generator stuck on the raw number 6, hence on the cell \<open>(6, 6)\<close>.\<close>

definition stuck_world :: World where
  "stuck_world = \<lparr>randoms = (\<lambda>n. 6), drawn = 0, clock = (\<lambda>n. 1), reads = 0\<rparr>"

text \<open>
  A state in the middle of a game in which nobody has scored: the snakes in their
  starting poses, the food in a corner, the power-up shown at time 15 and hidden again,
  unconsumed, at time 25; the time is now 26.
\<close>

definition base_game :: Game where
  "base_game =
     \<lparr>snake1 = \<lparr>body = start_body1, direction = (1, 0), addSegment = False\<rparr>,
      snake2 = \<lparr>body = start_body2, direction = (- 1, 0), addSegment = False\<rparr>,
      food_pos = (0, 0), powerup_pos = (- 1, - 1), running = True, score1 = 0, score2 = 0,
      showPowerup = False, powerupOnTime = 25, powerupOffTime = 15, powerupTimeGap = 15,
      gameUpdateTime = 26, gameOver = False, allowMove = True, winnerMessage = [],
      world = retry_world\<rparr>"

text \<open>The snakes have run towards each other and their heads are one cell apart.\<close>

definition headon_before :: Game where
  "headon_before = base_game
     \<lparr>snake1 := \<lparr>body = [(11, 9), (10, 9), (9, 9)], direction = (1, 0), addSegment = False\<rparr>,
      snake2 := \<lparr>body = [(13, 9), (14, 9), (15, 9)], direction = (- 1, 0),
                 addSegment = False\<rparr>\<rparr>"

text \<open>The food lies one cell ahead of the first snake, and of the second snake.\<close>

definition food_ahead :: Game where
  "food_ahead = base_game\<lparr>food_pos := (7, 9)\<rparr>"

definition food_ahead2 :: Game where
  "food_ahead2 = base_game\<lparr>food_pos := (17, 9)\<rparr>"

text \<open>
  The power-up has been shown at time 20 and lies one cell ahead of the first snake, of
  the second snake, or on the cell between the two heads of \<open>headon_before\<close>.
\<close>

definition powerup_ahead :: Game where
  "powerup_ahead = base_game
     \<lparr>powerup_pos := (7, 9), showPowerup := True, powerupOnTime := 20, powerupOffTime := 20\<rparr>"

definition powerup_ahead2 :: Game where
  "powerup_ahead2 = base_game
     \<lparr>powerup_pos := (17, 9), showPowerup := True, powerupOnTime := 20, powerupOffTime := 20\<rparr>"

definition powerup_between :: Game where
  "powerup_between = headon_before
     \<lparr>powerup_pos := (12, 9), showPowerup := True, powerupOnTime := 20, powerupOffTime := 20\<rparr>"

text \<open>The first snake is about to eat while the second is about to leave the grid.\<close>

definition eat_and_win :: Game where
  "eat_and_win = base_game
     \<lparr>snake2 := \<lparr>body = [(0, 3), (1, 3), (2, 3)], direction = (- 1, 0), addSegment = False\<rparr>,
      food_pos := (7, 9)\<rparr>"

text \<open>
  The power-up was shown at time 15 and is still visible; the next two ticks read the
  clock at 25 and at 30.
\<close>

definition powerup_shown :: Game where
  "powerup_shown = base_game
     \<lparr>powerup_pos := (20, 20), showPowerup := True, powerupOnTime := 15, powerupOffTime := 15,
      world := retry_world\<lparr>clock := (\<lambda>n. if n < 2 then 25 else 30)\<rparr>\<rparr>"

text \<open>
  A world at program start: the generator yields the raw numbers 0, 0, 7, 9, 0, so the
  constructor puts the food on \<open>(0, 0)\<close>, the power-up on \<open>(7, 9)\<close> and draws the gap 15;
  the first tick reads the clock at 1.
\<close>

definition init_world :: World where
  "init_world = \<lparr>randoms = (\<lambda>n. if n = 2 then 7 else if n = 3 then 9 else 0), drawn = 0,
     clock = (\<lambda>n. 1), reads = 0\<rparr>"

text \<open>
  Variants in which a tick places two collectibles or the food lies under the power-up:
  the reappearance of the power-up is due (last appearance at time 10), or the food shares
  the cell of the power-up ahead of the second snake.
\<close>

definition food_ahead2_due :: Game where
  "food_ahead2_due = food_ahead2\<lparr>powerupOffTime := 10\<rparr>"

definition powerup_food2 :: Game where
  "powerup_food2 = powerup_ahead2\<lparr>food_pos := (17, 9)\<rparr>"


section \<open>Basic facts\<close>

lemma elementInDeque_set: "elementInDeque e ds \<longleftrightarrow> e \<in> set ds"
  by (induction ds) (auto simp: Vector2Equals_def prod_eq_iff)

lemma Snake_init_length: "length (body (Snake_init p d)) = 3"
  by (simp add: Snake_init_def)

lemma Snake_reset_length: "length (body (Snake_reset p d s)) = 3"
  by (simp add: Snake_reset_def)

lemma Snake_update_length_ge: "length (body s) \<le> length (body (Snake_update s))"
  by (simp add: Snake_update_def Let_def)

section \<open>Advancing a snake\<close>

text \<open>
  Claim C2. One call of \<^verbatim>\<open>Snake::update\<close> puts a new head, the old head plus the
  direction, in front of the body. Without pending growth the tail is removed and the
  length stays the same; with pending growth the tail is kept, the length grows by
  exactly one and the flag is cleared. The direction is not touched.
\<close>

theorem Snake_update_advance:
  assumes "body s \<noteq> []"
  shows "hd (body (Snake_update s)) = Vector2Add (hd (body s)) (direction s)
    \<and> direction (Snake_update s) = direction s
    \<and> \<not> addSegment (Snake_update s)
    \<and> (\<not> addSegment s \<longrightarrow>
          body (Snake_update s) = Vector2Add (hd (body s)) (direction s) # butlast (body s)
        \<and> length (body (Snake_update s)) = length (body s))
    \<and> (addSegment s \<longrightarrow>
          body (Snake_update s) = Vector2Add (hd (body s)) (direction s) # body s
        \<and> length (body (Snake_update s)) = length (body s) + 1)"
  using assms by (simp add: Snake_update_def Let_def)

theorem Snake_update_advance_witness:
  "body (Snake_init (6, 9) (1, 0)) \<noteq> []
   \<and> body (Snake_update (Snake_init (6, 9) (1, 0))) = [(7, 9), (6, 9), (5, 9)]
   \<and> body (Snake_update ((Snake_init (6, 9) (1, 0))\<lparr>addSegment := True\<rparr>))
       = [(7, 9), (6, 9), (5, 9), (4, 9)]
   \<and> \<not> addSegment (Snake_update ((Snake_init (6, 9) (1, 0))\<lparr>addSegment := True\<rparr>))"
proof -
  have ne: "body (Snake_init (6, 9) (1, 0)) \<noteq> []"
    by (simp add: Snake_init_def)
  have ne': "body ((Snake_init (6, 9) (1, 0))\<lparr>addSegment := True\<rparr>) \<noteq> []"
    by (simp add: Snake_init_def)
  show ?thesis
    using ne Snake_update_advance [OF ne] Snake_update_advance [OF ne']
    by (simp add: Snake_init_def Vector2Add_def Vector2Subtract_def)
qed

section \<open>Placing a collectible\<close>

subsection \<open>Facts about the sampling loop\<close>

lemma randomCell_in_grid: "in_grid (fst (randomCell w))"
  by (simp add: in_grid_def randomCell_def GetRandomValue_def cellCount_def Let_def split_def)

lemma randomCell_world:
  "randoms (snd (randomCell w)) = randoms w \<and> clock (snd (randomCell w)) = clock w \<and>
   reads (snd (randomCell w)) = reads w \<and> drawn (snd (randomCell w)) = drawn w + 2"
  by (simp add: randomCell_def GetRandomValue_def Let_def split_def)

lemma nth_cell_in_grid: "in_grid (nth_cell w k)"
  by (induction k arbitrary: w) (simp_all add: randomCell_in_grid)

lemma GenRandPos_loop_Some:
  assumes "GenRandPos_loop p b1 b2 w = Some r"
  shows "\<not> occupied b1 b2 (fst r) \<and> (fst r = p \<or> (\<exists>k. fst r = nth_cell w k))"
proof (rule GenRandPos_loop.raw_induct
    [where P = "\<lambda>p b1 b2 w r. \<not> occupied b1 b2 (fst r) \<and> (fst r = p \<or> (\<exists>k. fst r = nth_cell w k))",
      OF _ assms])
  fix loop p b1 b2 w r
  assume IH: "\<And>p b1 b2 w r. loop p b1 b2 w = Some r \<Longrightarrow>
      \<not> occupied b1 b2 (fst r) \<and> (fst r = p \<or> (\<exists>k. fst r = nth_cell w k))"
    and step: "(if elementInDeque p b1 \<or> elementInDeque p b2
        then loop (fst (randomCell w)) b1 b2 (snd (randomCell w))
        else Some (p, w)) = Some r"
  show "\<not> occupied b1 b2 (fst r) \<and> (fst r = p \<or> (\<exists>k. fst r = nth_cell w k))"
  proof (cases "occupied b1 b2 p")
    case True
    with step have "loop (fst (randomCell w)) b1 b2 (snd (randomCell w)) = Some r"
      by (simp add: occupied_def)
    from IH[OF this] have
      free: "\<not> occupied b1 b2 (fst r)" and
      src: "fst r = fst (randomCell w) \<or> (\<exists>k. fst r = nth_cell (snd (randomCell w)) k)"
      by simp_all
    from src have "\<exists>k. fst r = nth_cell w k"
    proof
      assume "fst r = fst (randomCell w)"
      then have "fst r = nth_cell w 0" by simp
      then show ?thesis by blast
    next
      assume "\<exists>k. fst r = nth_cell (snd (randomCell w)) k"
      then obtain k where "fst r = nth_cell w (Suc k)" by auto
      then show ?thesis by blast
    qed
    with free show ?thesis by blast
  next
    case False
    with step have "r = (p, w)" by (simp add: occupied_def)
    with False show ?thesis by simp
  qed
qed

lemma GenRandPos_loop_world:
  assumes "GenRandPos_loop p b1 b2 w = Some r"
  shows "randoms (snd r) = randoms w \<and> clock (snd r) = clock w \<and> reads (snd r) = reads w"
proof (rule GenRandPos_loop.raw_induct
    [where P = "\<lambda>p b1 b2 w r. randoms (snd r) = randoms w \<and> clock (snd r) = clock w \<and> reads (snd r) = reads w",
      OF _ assms])
  fix loop :: "Vector2 \<Rightarrow> Vector2 list \<Rightarrow> Vector2 list \<Rightarrow> World \<Rightarrow> (Vector2 \<times> World) option"
  fix p b1 b2 w r
  assume IH: "\<And>p b1 b2 w r. loop p b1 b2 w = Some r \<Longrightarrow>
      randoms (snd r) = randoms w \<and> clock (snd r) = clock w \<and> reads (snd r) = reads w"
    and step: "(if elementInDeque p b1 \<or> elementInDeque p b2
        then loop (fst (randomCell w)) b1 b2 (snd (randomCell w))
        else Some (p, w)) = Some r"
  show "randoms (snd r) = randoms w \<and> clock (snd r) = clock w \<and> reads (snd r) = reads w"
  proof (cases "elementInDeque p b1 \<or> elementInDeque p b2")
    case True
    with step have "loop (fst (randomCell w)) b1 b2 (snd (randomCell w)) = Some r"
      by simp
    from IH[OF this] show ?thesis by (simp add: randomCell_world)
  next
    case False
    with step have "r = (p, w)" by simp
    then show ?thesis by simp
  qed
qed

lemma GenRandPos_Some:
  assumes "GenRandPos b1 b2 w = Some (p, w')"
  shows "in_grid p" and "\<not> elementInDeque p b1" and "\<not> elementInDeque p b2"
    and "\<exists>k. p = nth_cell w k"
    and "randoms w' = randoms w" and "clock w' = clock w" and "reads w' = reads w"
proof -
  from assms have loop:
    "GenRandPos_loop (fst (randomCell w)) b1 b2 (snd (randomCell w)) = Some (p, w')"
    by (simp add: GenRandPos_def)
  from GenRandPos_loop_Some[OF loop]
  have free: "\<not> occupied b1 b2 p"
    and src: "p = fst (randomCell w) \<or> (\<exists>k. p = nth_cell (snd (randomCell w)) k)"
    by simp_all
  from free show "\<not> elementInDeque p b1" and "\<not> elementInDeque p b2"
    by (simp_all add: occupied_def)
  from src show ex: "\<exists>k. p = nth_cell w k"
  proof
    assume "p = fst (randomCell w)"
    then have "p = nth_cell w 0" by simp
    then show ?thesis by blast
  next
    assume "\<exists>k. p = nth_cell (snd (randomCell w)) k"
    then obtain k where "p = nth_cell w (Suc k)" by auto
    then show ?thesis by blast
  qed
  from ex show "in_grid p" by (auto simp: nth_cell_in_grid)
  from GenRandPos_loop_world[OF loop]
  show "randoms w' = randoms w" and "clock w' = clock w" and "reads w' = reads w"
    by (simp_all add: randomCell_world)
qed

lemma GenRandPos_loop_returns:
  "\<not> occupied b1 b2 (nth_cell w k) \<Longrightarrow> GenRandPos_loop p b1 b2 w \<noteq> None"
proof (induction k arbitrary: p w)
  case 0
  show ?case
  proof (cases "occupied b1 b2 p")
    case False
    then show ?thesis by (subst GenRandPos_loop.simps) (simp add: occupied_def)
  next
    case True
    have "GenRandPos_loop p b1 b2 w =
          GenRandPos_loop (fst (randomCell w)) b1 b2 (snd (randomCell w))"
      using True by (subst GenRandPos_loop.simps) (simp add: occupied_def)
    also have "\<dots> = Some (fst (randomCell w), snd (randomCell w))"
      using 0 by (subst GenRandPos_loop.simps) (simp add: occupied_def)
    finally show ?thesis by simp
  qed
next
  case (Suc k)
  show ?case
  proof (cases "occupied b1 b2 p")
    case False
    then show ?thesis by (subst GenRandPos_loop.simps) (simp add: occupied_def)
  next
    case True
    have "GenRandPos_loop p b1 b2 w =
          GenRandPos_loop (fst (randomCell w)) b1 b2 (snd (randomCell w))"
      using True by (subst GenRandPos_loop.simps) (simp add: occupied_def)
    moreover have "\<not> occupied b1 b2 (nth_cell (snd (randomCell w)) k)"
      using Suc.prems by simp
    ultimately show ?thesis using Suc.IH by simp
  qed
qed

lemma GenRandPos_returns:
  assumes "\<not> occupied b1 b2 (nth_cell w k)"
  shows "GenRandPos b1 b2 w \<noteq> None"
proof (cases k)
  case 0
  with assms have "\<not> occupied b1 b2 (fst (randomCell w))" by simp
  then show ?thesis
    unfolding GenRandPos_def by (subst GenRandPos_loop.simps) (simp add: occupied_def)
next
  case (Suc j)
  with assms have "\<not> occupied b1 b2 (nth_cell (snd (randomCell w)) j)" by simp
  then show ?thesis
    unfolding GenRandPos_def by (rule GenRandPos_loop_returns)
qed


lemma all_cells_set: "p \<in> set all_cells \<longleftrightarrow> in_grid p"
  by (cases p) (auto simp: all_cells_def in_grid_def)

lemma jointly_cover_iff: "jointly_cover b1 b2 \<longleftrightarrow> (\<forall>p. in_grid p \<longrightarrow> occupied b1 b2 p)"
  by (auto simp add: jointly_cover_def list_all_iff all_cells_set)

lemma GenRandPos_covered:
  assumes "jointly_cover b1 b2"
  shows "GenRandPos b1 b2 w = None"
proof (rule ccontr)
  assume "GenRandPos b1 b2 w \<noteq> None"
  then obtain p w' where some: "GenRandPos b1 b2 w = Some (p, w')" by auto
  from GenRandPos_Some(1-3)[OF some] have "in_grid p" "\<not> occupied b1 b2 p"
    by (simp_all add: occupied_def)
  with assms show False unfolding jointly_cover_iff by blast
qed

lemma jointly_cover_all_cells: "jointly_cover all_cells []"
  by (simp add: jointly_cover_iff occupied_def elementInDeque_set all_cells_set)

lemma nth_cell_retry_world: "nth_cell retry_world (Suc (Suc (Suc 0))) = (3, 4)"
  by (simp add: randomCell_def GetRandomValue_def retry_world_def cellCount_def)

lemma GenRandPos_retry_world:
  "GenRandPos start_body1 start_body2 retry_world = Some ((3, 4), retry_world\<lparr>drawn := 8\<rparr>)"
  by (simp add: GenRandPos_def GenRandPos_loop.simps randomCell_def GetRandomValue_def
      retry_world_def cellCount_def Vector2Equals_def start_body1_def start_body2_def)

subsection \<open>The position that is returned\<close>

text \<open>
  Claim C7. The position returned by \<^verbatim>\<open>Food::GenRandPos\<close> lies inside the grid,
  \<open>[0, cellCount)\<close> in both coordinates, and is a member of neither body. The first
  part says so for every return of the function, whatever the two bodies are (two bodies
  that cover the grid never let it return). The second part says that a position with
  these properties is in fact returned as soon as one sample of the random source falls
  on a free cell, which can only happen when the bodies do not cover the grid.
\<close>

theorem GenRandPos_position:
  "(GenRandPos b1 b2 w = Some (p, w') \<longrightarrow> in_grid p \<and> p \<notin> set b1 \<and> p \<notin> set b2)
   \<and> (\<not> occupied b1 b2 (nth_cell w k) \<longrightarrow>
        (\<exists>q w''. GenRandPos b1 b2 w = Some (q, w'') \<and> in_grid q \<and> q \<notin> set b1 \<and> q \<notin> set b2))"
proof (intro conjI impI)
  assume some: "GenRandPos b1 b2 w = Some (p, w')"
  from GenRandPos_Some(1-3)[OF some]
  show "in_grid p" and "p \<notin> set b1" and "p \<notin> set b2"
    by (simp_all add: elementInDeque_set)
next
  assume "\<not> occupied b1 b2 (nth_cell w k)"
  then have "GenRandPos b1 b2 w \<noteq> None" by (rule GenRandPos_returns)
  then obtain q w'' where some: "GenRandPos b1 b2 w = Some (q, w'')" by auto
  from GenRandPos_Some(1-3)[OF some] some
  show "\<exists>q w''. GenRandPos b1 b2 w = Some (q, w'') \<and> in_grid q \<and> q \<notin> set b1 \<and> q \<notin> set b2"
    by (auto simp: elementInDeque_set)
qed

theorem GenRandPos_position_witness:
  "GenRandPos start_body1 start_body2 retry_world = Some ((3, 4), retry_world\<lparr>drawn := 8\<rparr>)
   \<and> \<not> occupied start_body1 start_body2 (nth_cell retry_world (Suc (Suc (Suc 0))))
   \<and> in_grid (3, 4) \<and> (3, 4) \<notin> set start_body1 \<and> (3, 4) \<notin> set start_body2
   \<and> (\<exists>q w''. GenRandPos start_body1 start_body2 retry_world = Some (q, w'') \<and> in_grid q
        \<and> q \<notin> set start_body1 \<and> q \<notin> set start_body2)"
proof -
  have ret: "GenRandPos start_body1 start_body2 retry_world
      = Some ((3, 4), retry_world\<lparr>drawn := 8\<rparr>)"
    by (rule GenRandPos_retry_world)
  have free: "\<not> occupied start_body1 start_body2 (nth_cell retry_world (Suc (Suc (Suc 0))))"
    unfolding nth_cell_retry_world
    by (simp add: occupied_def start_body1_def start_body2_def Vector2Equals_def)
  from GenRandPos_position
    [of start_body1 start_body2 retry_world "(3, 4)" "retry_world\<lparr>drawn := 8\<rparr>" "Suc (Suc (Suc 0))"]
    ret free
  show ?thesis by blast
qed

subsection \<open>Termination of the sampling loop\<close>

text \<open>
  When the two bodies occupy every cell of the grid, the loop never returns and nothing
  is reported: the function has no result at all.
\<close>

theorem GenRandPos_covered_counterexample:
  "jointly_cover all_cells [] \<and> GenRandPos all_cells [] stuck_world = None"
  using jointly_cover_all_cells GenRandPos_covered by blast


text \<open>
  Claim C10, as amended. The sampling loop of \<^verbatim>\<open>Food::GenRandPos\<close> returns exactly
  when the random source sooner or later draws a cell that lies in neither body. When
  the two bodies jointly occupy every cell of the grid it never returns: the code has no
  bound on the retries and no failure path.
\<close>

theorem GenRandPos_returns_iff:
  "(GenRandPos b1 b2 w \<noteq> None \<longleftrightarrow> (\<exists>k. \<not> occupied b1 b2 (nth_cell w k)))
   \<and> (jointly_cover b1 b2 \<longrightarrow> GenRandPos b1 b2 w = None)"
proof (intro conjI impI iffI)
  assume "GenRandPos b1 b2 w \<noteq> None"
  then obtain p w' where some: "GenRandPos b1 b2 w = Some (p, w')" by auto
  from GenRandPos_Some(2-4)[OF some]
  show "\<exists>k. \<not> occupied b1 b2 (nth_cell w k)"
    by (auto simp: occupied_def)
next
  assume "\<exists>k. \<not> occupied b1 b2 (nth_cell w k)"
  then show "GenRandPos b1 b2 w \<noteq> None" using GenRandPos_returns by blast
next
  assume "jointly_cover b1 b2"
  then show "GenRandPos b1 b2 w = None" by (rule GenRandPos_covered)
qed


theorem GenRandPos_returns_iff_witness:
  "\<not> occupied start_body1 start_body2 (nth_cell retry_world (Suc (Suc (Suc 0))))
   \<and> GenRandPos start_body1 start_body2 retry_world \<noteq> None
   \<and> jointly_cover all_cells []
   \<and> GenRandPos all_cells [] retry_world = None"
proof -
  have free: "\<not> occupied start_body1 start_body2 (nth_cell retry_world (Suc (Suc (Suc 0))))"
    unfolding nth_cell_retry_world
    by (simp add: occupied_def start_body1_def start_body2_def Vector2Equals_def)
  from GenRandPos_returns_iff [of start_body1 start_body2 retry_world]
    GenRandPos_returns_iff [of all_cells "[]" retry_world]
    free jointly_cover_all_cells
  show ?thesis by blast
qed

section \<open>The operations without local bindings\<close>

text \<open>
  Each operation once more, as one conditional expression over the fields it reads.
  These equations are what the later proofs rewrite with.
\<close>

lemma declareWinner_twice: "declareWinner a (declareWinner b g) = declareWinner a g"
  by (simp add: declareWinner_def)

lemma declareWinner_snakes:
  "snake1 (declareWinner a g) = snake1 g" "snake2 (declareWinner a g) = snake2 g"
  by (simp_all add: declareWinner_def)

lemma checkCollisions_winners:
  "checkCollisions g =
     (if matching_winners g = [] then g else declareWinner (last (matching_winners g)) g)"
proof -
  define c1 where "c1 = isOutOfBounds (snake1 g)"
  define c2 where "c2 = isOutOfBounds (snake2 g)"
  define c3 where "c3 = selfCollision (snake1 g)"
  define c4 where "c4 = selfCollision (snake2 g)"
  define c5 where "c5 = elementInDeque (hd (body (snake1 g))) (body (snake2 g))"
  define c6 where "c6 = elementInDeque (hd (body (snake2 g))) (body (snake1 g))"
  define g1 where "g1 = (if c1 then declareWinner 2 g else g)"
  define g2 where "g2 = (if c2 then declareWinner 1 g1 else g1)"
  define g3 where "g3 = (if c3 then declareWinner 2 g2 else g2)"
  define g4 where "g4 = (if c4 then declareWinner 1 g3 else g3)"
  define g5 where "g5 = (if c5 then declareWinner 2 g4 else g4)"
  define g6 where "g6 = (if c6 then declareWinner 1 g5 else g5)"
  have unfold: "checkCollisions g = g6"
    unfolding checkCollisions_def Let_def g6_def g5_def g4_def g3_def g2_def g1_def
      c1_def c2_def c3_def c4_def c5_def c6_def
    by (simp only: declareWinner_snakes if_distrib[of snake1] if_distrib[of snake2] if_cancel)
  define w :: "bool \<Rightarrow> int \<Rightarrow> int list" where "w c n = (if c then [n] else [])" for c n
  have mw: "matching_winners g = w c1 2 @ w c2 1 @ w c3 2 @ w c4 1 @ w c5 2 @ w c6 1"
    by (simp add: matching_winners_def collision_rules_def w_def
        c1_def c2_def c3_def c4_def c5_def c6_def)
  define fin where "fin ws = (if ws = [] then g else declareWinner (last ws) g)" for ws
  have step: "(if c then declareWinner n (fin ws) else fin ws) = fin (ws @ w c n)" for c n ws
    by (simp add: fin_def w_def declareWinner_twice)
  have "g1 = fin (w c1 2)" by (simp add: g1_def fin_def w_def)
  then have "g2 = fin (w c1 2 @ w c2 1)" by (simp only: g2_def step)
  then have "g3 = fin ((w c1 2 @ w c2 1) @ w c3 2)" by (simp only: g3_def step)
  then have "g4 = fin (((w c1 2 @ w c2 1) @ w c3 2) @ w c4 1)" by (simp only: g4_def step)
  then have "g5 = fin ((((w c1 2 @ w c2 1) @ w c3 2) @ w c4 1) @ w c5 2)"
    by (simp only: g5_def step)
  then have "g6 = fin (((((w c1 2 @ w c2 1) @ w c3 2) @ w c4 1) @ w c5 2) @ w c6 1)"
    by (simp only: g6_def step)
  then have "g6 = fin (matching_winners g)" by (simp only: mw append_assoc)
  with unfold show ?thesis by (simp only: fin_def)
qed

lemma Game_update_phases:
  "Game_update g =
     (if running g then
        Option.bind (checkFoodCollision P1 (moved g)) (\<lambda>g3.
        Option.bind (checkFoodCollision P2 g3) (\<lambda>g4.
          togglePowerupOn (togglePowerupOff (checkCollisions
            (checkPowerupCollision P2 (checkPowerupCollision P1 g4))))))
      else Some g)"
  by (simp add: Game_update_def moved_def)

lemma togglePowerupOff_eq:
  "togglePowerupOff g =
     (if showPowerup g then
        (if clock (world g) (reads (world g)) - powerupOnTime g \<ge> 10
         then g\<lparr>powerupOnTime := clock (world g) (reads (world g)),
                world := (world g)\<lparr>reads := Suc (reads (world g))\<rparr>,
                showPowerup := False, powerup_pos := (- 1, - 1)\<rparr>
         else g\<lparr>powerupOnTime := powerupOnTime g,
                world := (world g)\<lparr>reads := Suc (reads (world g))\<rparr>\<rparr>)
      else g)"
  by (simp add: togglePowerupOff_def eventTriggered_def GetTime_def Let_def)

lemma togglePowerupOn_eq:
  "togglePowerupOn g =
     (if \<not> showPowerup g then
        (if clock (world g) (reads (world g)) - powerupOffTime g \<ge> powerupTimeGap g
         then Option.bind
            (GenRandPos (body (snake1 g)) (body (snake2 g))
               ((world g)\<lparr>reads := Suc (Suc (reads (world g)))\<rparr>))
            (\<lambda>r. Some (g\<lparr>powerupOffTime := clock (world g) (reads (world g)),
                            showPowerup := True,
                            powerupOnTime := clock (world g) (Suc (reads (world g))),
                            powerup_pos := fst r, world := snd r\<rparr>))
         else Some (g\<lparr>powerupOffTime := powerupOffTime g,
                       world := (world g)\<lparr>reads := Suc (reads (world g))\<rparr>\<rparr>))
      else Some g)"
  by (simp add: togglePowerupOn_def eventTriggered_def GetTime_def Let_def split_def)

lemma checkFoodCollision_eq:
  "checkFoodCollision p g =
     (if hd (body (snake_of p g)) = food_pos g then
        Option.bind (GenRandPos (body (snake1 g)) (body (snake2 g)) (world g))
          (\<lambda>r. Some (set_score p (score_of p g + 1)
                  (set_snake p ((snake_of p g)\<lparr>addSegment := True\<rparr>)
                     (g\<lparr>food_pos := fst r, world := snd r\<rparr>))))
      else Some g)"
  by (cases p) (simp_all add: checkFoodCollision_def Vector2Equals_def prod_eq_iff split_def)

lemma checkPowerupCollision_eq:
  "checkPowerupCollision p g =
     (if hd (body (snake_of p g)) = powerup_pos g then
        set_score p (score_of p g + 5)
          (set_snake p ((snake_of p g)\<lparr>addSegment := True\<rparr>)
             (g\<lparr>powerup_pos := (- 1, - 1), showPowerup := False\<rparr>))
      else g)"
  by (cases p) (simp_all add: checkPowerupCollision_def Vector2Equals_def prod_eq_iff)

section \<open>Collision resolution\<close>

text \<open>
  A tick from \<open>headon_before\<close> brings both heads onto the cell \<open>(12, 9)\<close>. The fifth and
  the sixth rule match, in this order, and the winner that is recorded is the one of the
  sixth rule, not of the fifth.
\<close>

lemma Game_update_headon:
  "Game_update headon_before = Some (headon_before
     \<lparr>snake1 := \<lparr>body = [(12, 9), (11, 9), (10, 9)], direction = (1, 0), addSegment = False\<rparr>,
      snake2 := \<lparr>body = [(12, 9), (13, 9), (14, 9)], direction = (- 1, 0), addSegment = False\<rparr>,
      running := False, gameOver := True, winnerMessage := ''Player 1 Wins!'',
      world := retry_world\<lparr>reads := 1\<rparr>\<rparr>)"
  by (simp add: Game_update_phases moved_def headon_before_def base_game_def Snake_update_def
      Vector2Add_def checkFoodCollision_eq checkPowerupCollision_eq
      checkCollisions_winners matching_winners_def collision_rules_def
      isOutOfBounds_def selfCollision_def declareWinner_def cellCount_def Vector2Equals_def
      togglePowerupOff_eq togglePowerupOn_eq retry_world_def)

theorem checkCollisions_first_match_counterexample:
  "Game_update headon_before \<noteq> None
   \<and> matching_winners (the (Game_update headon_before)) = [2, 1]
   \<and> winnerMessage (the (Game_update headon_before)) = ''Player 1 Wins!''"
  unfolding Game_update_headon
  by (simp add: matching_winners_def collision_rules_def isOutOfBounds_def selfCollision_def
      Vector2Equals_def cellCount_def headon_before_def base_game_def)

text \<open>
  Claim C1, as amended. \<^verbatim>\<open>Game::checkCollisions\<close> tests the six conditions in the fixed
  order and none of the tests ends the function, so every rule that matches declares its
  winner and overwrites the earlier one: when no rule matches the state is unchanged, and
  otherwise the game is over and the winner recorded is the one of the last matching rule.
\<close>

theorem checkCollisions_last_match:
  "checkCollisions g =
     (if matching_winners g = [] then g else declareWinner (last (matching_winners g)) g)
   \<and> (matching_winners g \<noteq> [] \<longrightarrow>
        gameOver (checkCollisions g) \<and> \<not> running (checkCollisions g)
        \<and> winnerMessage (checkCollisions g) =
            (if last (matching_winners g) = 1 then ''Player 1 Wins!'' else ''Player 2 Wins!''))"
proof (intro conjI impI)
  show "checkCollisions g =
     (if matching_winners g = [] then g else declareWinner (last (matching_winners g)) g)"
    by (rule checkCollisions_winners)
next
  assume some: "matching_winners g \<noteq> []"
  then have "checkCollisions g = declareWinner (last (matching_winners g)) g"
    by (simp add: checkCollisions_winners)
  then show "gameOver (checkCollisions g)" and "\<not> running (checkCollisions g)"
    and "winnerMessage (checkCollisions g) =
            (if last (matching_winners g) = 1 then ''Player 1 Wins!'' else ''Player 2 Wins!'')"
    by (simp_all add: declareWinner_def)
qed

theorem checkCollisions_last_match_witness:
  "matching_winners (moved headon_before) = [2, 1]
   \<and> gameOver (checkCollisions (moved headon_before))
   \<and> \<not> running (checkCollisions (moved headon_before))
   \<and> winnerMessage (checkCollisions (moved headon_before)) = ''Player 1 Wins!''"
proof -
  have mw: "matching_winners (moved headon_before) = [2, 1]"
    by (simp add: matching_winners_def collision_rules_def isOutOfBounds_def selfCollision_def
        Vector2Equals_def cellCount_def moved_def Snake_update_def Vector2Add_def
        headon_before_def base_game_def)
  from checkCollisions_last_match [of "moved headon_before"] mw
  show ?thesis by (simp add: declareWinner_def)
qed

section \<open>Steering\<close>








section \<open>One tick\<close>

subsection \<open>What each phase of a tick leaves alone\<close>

lemma Snake_update_body:
  assumes "body s \<noteq> []"
  shows "hd (body (Snake_update s)) = next_head s"
    and "body (Snake_update s) \<noteq> []"
    and "length (body (Snake_update s)) = length (body s) + (if addSegment s then 1 else 0)"
    and "\<not> addSegment (Snake_update s)"
    and "next_head s \<in> set (body (Snake_update s))"
  using assms by (simp_all add: Snake_update_def next_head_def Let_def)

lemma checkCollisions_frame:
  "snake1 (checkCollisions g) = snake1 g" "snake2 (checkCollisions g) = snake2 g"
  "food_pos (checkCollisions g) = food_pos g" "powerup_pos (checkCollisions g) = powerup_pos g"
  "score1 (checkCollisions g) = score1 g" "score2 (checkCollisions g) = score2 g"
  "showPowerup (checkCollisions g) = showPowerup g"
  "powerupOnTime (checkCollisions g) = powerupOnTime g"
  "powerupOffTime (checkCollisions g) = powerupOffTime g"
  "powerupTimeGap (checkCollisions g) = powerupTimeGap g"
  "world (checkCollisions g) = world g"
  by (simp_all add: checkCollisions_winners declareWinner_def)

lemma togglePowerupOff_frame:
  "snake1 (togglePowerupOff g) = snake1 g" "snake2 (togglePowerupOff g) = snake2 g"
  "food_pos (togglePowerupOff g) = food_pos g"
  "score1 (togglePowerupOff g) = score1 g" "score2 (togglePowerupOff g) = score2 g"
  "powerupOffTime (togglePowerupOff g) = powerupOffTime g"
  "powerupTimeGap (togglePowerupOff g) = powerupTimeGap g"
  "running (togglePowerupOff g) = running g" "gameOver (togglePowerupOff g) = gameOver g"
  "winnerMessage (togglePowerupOff g) = winnerMessage g"
  by (simp_all add: togglePowerupOff_eq)

lemma togglePowerupOff_hidden: "\<not> showPowerup g \<Longrightarrow> togglePowerupOff g = g"
  by (simp add: togglePowerupOff_eq)
lemma togglePowerupOn_frame:
  assumes "togglePowerupOn g = Some g'"
  shows "snake1 g' = snake1 g" "snake2 g' = snake2 g" "food_pos g' = food_pos g"
    "score1 g' = score1 g" "score2 g' = score2 g" "powerupTimeGap g' = powerupTimeGap g"
    "running g' = running g" "gameOver g' = gameOver g" "winnerMessage g' = winnerMessage g"
  using assms by (auto simp: togglePowerupOn_eq split: if_splits Option.bind_splits)

lemma togglePowerupOn_quiet:
  assumes "\<not> showPowerup g"
    and "clock (world g) (reads (world g)) - powerupOffTime g < powerupTimeGap g"
  shows "togglePowerupOn g =
           Some (g\<lparr>powerupOffTime := powerupOffTime g,
                   world := (world g)\<lparr>reads := Suc (reads (world g))\<rparr>\<rparr>)"
  using assms by (simp add: togglePowerupOn_eq)
lemma checkPowerupCollision_frame:
  "food_pos (checkPowerupCollision p g) = food_pos g"
  "world (checkPowerupCollision p g) = world g"
  "body (snake1 (checkPowerupCollision p g)) = body (snake1 g)"
  "body (snake2 (checkPowerupCollision p g)) = body (snake2 g)"
  "powerupOffTime (checkPowerupCollision p g) = powerupOffTime g"
  "powerupTimeGap (checkPowerupCollision p g) = powerupTimeGap g"
  by (cases p; simp add: checkPowerupCollision_eq)+

lemma checkFoodCollision_Some:
  assumes "checkFoodCollision p g = Some g'"
  shows "(hd (body (snake_of p g)) \<noteq> food_pos g \<and> g' = g) \<or>
         (hd (body (snake_of p g)) = food_pos g \<and>
          (\<exists>pos w'. GenRandPos (body (snake1 g)) (body (snake2 g)) (world g) = Some (pos, w') \<and>
             g' = set_score p (score_of p g + 1)
                    (set_snake p ((snake_of p g)\<lparr>addSegment := True\<rparr>)
                       (g\<lparr>food_pos := pos, world := w'\<rparr>))))"
proof (cases "hd (body (snake_of p g)) = food_pos g")
  case False
  with assms show ?thesis by (simp add: checkFoodCollision_eq)
next
  case True
  show ?thesis
  proof (cases "GenRandPos (body (snake1 g)) (body (snake2 g)) (world g)")
    case None
    with True assms show ?thesis by (simp add: checkFoodCollision_eq)
  next
    case (Some r)
    then have "GenRandPos (body (snake1 g)) (body (snake2 g)) (world g) = Some (fst r, snd r)"
      by simp
    moreover from Some True assms
    have "g' = set_score p (score_of p g + 1)
                    (set_snake p ((snake_of p g)\<lparr>addSegment := True\<rparr>)
                       (g\<lparr>food_pos := fst r, world := snd r\<rparr>))"
      by (simp add: checkFoodCollision_eq)
    ultimately show ?thesis using True by blast
  qed
qed

lemma checkFoodCollision_frame:
  assumes "checkFoodCollision p g = Some g'"
  shows "body (snake1 g') = body (snake1 g)" "body (snake2 g') = body (snake2 g)"
    "powerup_pos g' = powerup_pos g" "showPowerup g' = showPowerup g"
    "powerupOffTime g' = powerupOffTime g" "powerupTimeGap g' = powerupTimeGap g"
    "powerupOnTime g' = powerupOnTime g"
    "clock (world g') = clock (world g)" "reads (world g') = reads (world g)"
proof -
  from checkFoodCollision_Some[OF assms]
  show "body (snake1 g') = body (snake1 g)" "body (snake2 g') = body (snake2 g)"
    "powerup_pos g' = powerup_pos g" "showPowerup g' = showPowerup g"
    "powerupOffTime g' = powerupOffTime g" "powerupTimeGap g' = powerupTimeGap g"
    "powerupOnTime g' = powerupOnTime g"
    by (cases p; auto)+
  from checkFoodCollision_Some[OF assms]
  show "clock (world g') = clock (world g)" "reads (world g') = reads (world g)"
    by (cases p; auto dest: GenRandPos_Some(6,7))+
qed

lemma checkPowerupCollision_other:
  "snake1 (checkPowerupCollision P2 g) = snake1 g"
  "score1 (checkPowerupCollision P2 g) = score1 g"
  "snake2 (checkPowerupCollision P1 g) = snake2 g"
  "score2 (checkPowerupCollision P1 g) = score2 g"
  by (simp_all add: checkPowerupCollision_eq)

lemma moved_fields:
  "snake1 (moved g) = Snake_update (snake1 g)" "snake2 (moved g) = Snake_update (snake2 g)"
  "food_pos (moved g) = food_pos g" "powerup_pos (moved g) = powerup_pos g"
  "score1 (moved g) = score1 g" "score2 (moved g) = score2 g"
  "showPowerup (moved g) = showPowerup g" "world (moved g) = world g"
  "powerupOffTime (moved g) = powerupOffTime g" "powerupTimeGap (moved g) = powerupTimeGap g"
  "powerupOnTime (moved g) = powerupOnTime g"
  by (simp_all add: moved_def)

lemma Game_update_Some:
  assumes "running g" and "Game_update g = Some g'"
  obtains g3 g4 where "checkFoodCollision P1 (moved g) = Some g3"
    and "checkFoodCollision P2 g3 = Some g4"
    and "togglePowerupOn (togglePowerupOff (checkCollisions
            (checkPowerupCollision P2 (checkPowerupCollision P1 g4)))) = Some g'"
  using assms by (auto simp: Game_update_phases Option.bind_eq_Some_conv)

lemma tick_tail:
  assumes "togglePowerupOn (togglePowerupOff (checkCollisions h)) = Some g'"
  shows "snake1 g' = snake1 h" "snake2 g' = snake2 h" "food_pos g' = food_pos h"
    "score1 g' = score1 h" "score2 g' = score2 h"
  using togglePowerupOn_frame[OF assms]
  by (simp_all add: togglePowerupOff_frame checkCollisions_frame)

lemmas tick_eval = Game_update_phases moved_def Snake_update_def Vector2Add_def
  checkFoodCollision_eq checkPowerupCollision_eq checkCollisions_winners matching_winners_def
  collision_rules_def isOutOfBounds_def selfCollision_def declareWinner_def cellCount_def
  Vector2Equals_def togglePowerupOff_eq togglePowerupOn_eq GenRandPos_def
  GenRandPos_loop.simps randomCell_def GetRandomValue_def

subsection \<open>What the check for the food changes\<close>

lemma checkFoodCollision_own:
  assumes "checkFoodCollision p g = Some g'"
  shows "score_of p g' = score_of p g + (if hd (body (snake_of p g)) = food_pos g then 1 else 0)"
    and "hd (body (snake_of p g)) = food_pos g \<Longrightarrow> food_pos g' \<notin> set (body (snake1 g))"
    and "hd (body (snake_of p g)) = food_pos g \<Longrightarrow> food_pos g' \<notin> set (body (snake2 g))"
    and "hd (body (snake_of p g)) \<noteq> food_pos g \<Longrightarrow> g' = g"
  using checkFoodCollision_Some[OF assms]
  by (cases p; auto dest: GenRandPos_Some(2,3) simp: elementInDeque_set)+

lemma checkFoodCollision_other:
  assumes "checkFoodCollision P1 g = Some g'"
  shows "score2 g' = score2 g" and "snake2 g' = snake2 g"
  using checkFoodCollision_Some[OF assms] by auto

lemma checkFoodCollision_other2:
  assumes "checkFoodCollision P2 g = Some g'"
  shows "score1 g' = score1 g" and "snake1 g' = snake1 g"
  using checkFoodCollision_Some[OF assms] by auto

subsection \<open>Samples of the random source\<close>

lemma nth_cell_eq:
  "nth_cell w k =
     (int (randoms w (drawn w + 2 * k) mod 25), int (randoms w (drawn w + 2 * k + 1) mod 25))"
proof (induction k arbitrary: w)
  case 0
  show ?case by (simp add: randomCell_def GetRandomValue_def cellCount_def)
next
  case (Suc k)
  show ?case by (simp add: Suc.IH randomCell_world)
qed

lemma nth_cell_source:
  assumes "randoms w' = randoms w" and "drawn w' = drawn w + 2 * j"
  shows "nth_cell w' k = nth_cell w (j + k)"
  using assms by (simp add: nth_cell_eq algebra_simps)

lemma GenRandPos_loop_first_free:
  assumes "\<not> occupied b1 b2 (nth_cell w k)" and "occupied b1 b2 p"
  shows "\<exists>j\<le>k. \<exists>w'. GenRandPos_loop p b1 b2 w = Some (nth_cell w j, w') \<and>
           randoms w' = randoms w \<and> drawn w' = drawn w + 2 * Suc j"
  using assms
proof (induction k arbitrary: p w)
  case 0
  have "GenRandPos_loop p b1 b2 w =
          GenRandPos_loop (fst (randomCell w)) b1 b2 (snd (randomCell w))"
    using "0.prems"(2) by (subst GenRandPos_loop.simps) (simp add: occupied_def)
  also have "\<dots> = Some (fst (randomCell w), snd (randomCell w))"
    using "0.prems"(1) by (subst GenRandPos_loop.simps) (simp add: occupied_def)
  finally have "GenRandPos_loop p b1 b2 w = Some (nth_cell w 0, snd (randomCell w))"
    by simp
  moreover have "randoms (snd (randomCell w)) = randoms w"
    "drawn (snd (randomCell w)) = drawn w + 2 * Suc 0"
    by (simp_all add: randomCell_world)
  ultimately show ?case by blast
next
  case (Suc k)
  have step: "GenRandPos_loop p b1 b2 w =
          GenRandPos_loop (fst (randomCell w)) b1 b2 (snd (randomCell w))"
    using Suc.prems(2) by (subst GenRandPos_loop.simps) (simp add: occupied_def)
  show ?case
  proof (cases "occupied b1 b2 (fst (randomCell w))")
    case False
    then have "GenRandPos_loop (fst (randomCell w)) b1 b2 (snd (randomCell w))
        = Some (fst (randomCell w), snd (randomCell w))"
      by (subst GenRandPos_loop.simps) (simp add: occupied_def)
    with step have "GenRandPos_loop p b1 b2 w = Some (nth_cell w 0, snd (randomCell w))"
      by simp
    moreover have "randoms (snd (randomCell w)) = randoms w"
      "drawn (snd (randomCell w)) = drawn w + 2 * Suc 0"
      by (simp_all add: randomCell_world)
    ultimately show ?thesis by blast
  next
    case True
    from Suc.prems(1) have "\<not> occupied b1 b2 (nth_cell (snd (randomCell w)) k)" by simp
    from Suc.IH[OF this True] obtain j w' where
      j: "j \<le> k" and
      r: "GenRandPos_loop (fst (randomCell w)) b1 b2 (snd (randomCell w))
            = Some (nth_cell (snd (randomCell w)) j, w')" and
      s: "randoms w' = randoms (snd (randomCell w))"
         "drawn w' = drawn (snd (randomCell w)) + 2 * Suc j"
      by blast
    from step r have "GenRandPos_loop p b1 b2 w = Some (nth_cell w (Suc j), w')" by simp
    moreover from s have "randoms w' = randoms w" "drawn w' = drawn w + 2 * Suc (Suc j)"
      by (simp_all add: randomCell_world)
    moreover from j have "Suc j \<le> Suc k" by simp
    ultimately show ?thesis by blast
  qed
qed

lemma GenRandPos_first_free:
  assumes "\<not> occupied b1 b2 (nth_cell w k)"
  shows "\<exists>j\<le>k. \<exists>w'. GenRandPos b1 b2 w = Some (nth_cell w j, w') \<and>
           randoms w' = randoms w \<and> drawn w' = drawn w + 2 * Suc j"
proof (cases "occupied b1 b2 (fst (randomCell w))")
  case False
  then have "GenRandPos b1 b2 w = Some (nth_cell w 0, snd (randomCell w))"
    unfolding GenRandPos_def by (subst GenRandPos_loop.simps) (simp add: occupied_def)
  moreover have "randoms (snd (randomCell w)) = randoms w"
    "drawn (snd (randomCell w)) = drawn w + 2 * Suc 0"
    by (simp_all add: randomCell_world)
  ultimately show ?thesis by blast
next
  case True
  with assms obtain k' where k': "k = Suc k'" by (cases k) auto
  with assms have "\<not> occupied b1 b2 (nth_cell (snd (randomCell w)) k')" by simp
  from GenRandPos_loop_first_free[OF this True] obtain j w' where
    j: "j \<le> k'" and
    r: "GenRandPos_loop (fst (randomCell w)) b1 b2 (snd (randomCell w))
          = Some (nth_cell (snd (randomCell w)) j, w')" and
    s: "randoms w' = randoms (snd (randomCell w))"
       "drawn w' = drawn (snd (randomCell w)) + 2 * Suc j"
    by blast
  from r have "GenRandPos b1 b2 w = Some (nth_cell w (Suc j), w')"
    by (simp add: GenRandPos_def)
  moreover from s have "randoms w' = randoms w" "drawn w' = drawn w + 2 * Suc (Suc j)"
    by (simp_all add: randomCell_world)
  moreover from j k' have "Suc j \<le> k" by simp
  ultimately show ?thesis by blast
qed

lemma GenRandPos_leaves_free:
  assumes k1: "\<not> occupied b1 b2 (nth_cell w k1)" and k2: "\<not> occupied b1 b2 (nth_cell w k2)"
    and lt: "k1 < k2"
  shows "\<exists>p w'. GenRandPos b1 b2 w = Some (p, w') \<and> (\<exists>k. \<not> occupied b1 b2 (nth_cell w' k))"
proof -
  from GenRandPos_first_free[OF k1] obtain j w' where
    j: "j \<le> k1" and r: "GenRandPos b1 b2 w = Some (nth_cell w j, w')" and
    s: "randoms w' = randoms w" "drawn w' = drawn w + 2 * Suc j"
    by blast
  from j lt have "Suc j + (k2 - Suc j) = k2" by simp
  with nth_cell_source[OF s, of "k2 - Suc j"] k2
  have "\<not> occupied b1 b2 (nth_cell w' (k2 - Suc j))" by simp
  with r show ?thesis by blast
qed

lemma nth_cell_reads: "nth_cell (w\<lparr>reads := r\<rparr>) k = nth_cell w k"
  by (simp add: nth_cell_eq)

lemma checkFoodCollision_returns:
  assumes "hd (body (snake_of p g)) = food_pos g \<longrightarrow>
             (\<exists>k. \<not> occupied (body (snake1 g)) (body (snake2 g)) (nth_cell (world g) k))"
  shows "\<exists>g'. checkFoodCollision p g = Some g'"
proof (cases "hd (body (snake_of p g)) = food_pos g")
  case False
  then show ?thesis by (simp add: checkFoodCollision_eq)
next
  case True
  with assms obtain k where
    "\<not> occupied (body (snake1 g)) (body (snake2 g)) (nth_cell (world g) k)" by blast
  from GenRandPos_returns[OF this] obtain r where
    "GenRandPos (body (snake1 g)) (body (snake2 g)) (world g) = Some r" by auto
  with True show ?thesis by (simp add: checkFoodCollision_eq)
qed

lemma togglePowerupOn_returns:
  assumes "showPowerup g \<or>
           clock (world g) (reads (world g)) - powerupOffTime g < powerupTimeGap g \<or>
           (\<exists>k. \<not> occupied (body (snake1 g)) (body (snake2 g)) (nth_cell (world g) k))"
  shows "\<exists>g'. togglePowerupOn g = Some g'"
proof (cases "\<not> showPowerup g \<and>
    clock (world g) (reads (world g)) - powerupOffTime g \<ge> powerupTimeGap g")
  case False
  then show ?thesis by (auto simp: togglePowerupOn_eq)
next
  case True
  with assms obtain k where
    "\<not> occupied (body (snake1 g)) (body (snake2 g)) (nth_cell (world g) k)" by auto
  then have "\<not> occupied (body (snake1 g)) (body (snake2 g))
      (nth_cell ((world g)\<lparr>reads := Suc (Suc (reads (world g)))\<rparr>) k)"
    by (simp add: nth_cell_reads)
  from GenRandPos_returns[OF this] obtain r where
    "GenRandPos (body (snake1 g)) (body (snake2 g))
       ((world g)\<lparr>reads := Suc (Suc (reads (world g)))\<rparr>) = Some r" by auto
  with True show ?thesis by (simp add: togglePowerupOn_eq)
qed

subsection \<open>When a tick returns\<close>

lemma togglePowerupOff_source:
  "nth_cell (world (togglePowerupOff g)) k = nth_cell (world g) k"
  "body (snake1 (togglePowerupOff g)) = body (snake1 g)"
  "body (snake2 (togglePowerupOff g)) = body (snake2 g)"
  by (simp_all add: togglePowerupOff_eq nth_cell_reads)

lemma checkPowerupCollision_hidden:
  "\<not> showPowerup g \<Longrightarrow> \<not> showPowerup (checkPowerupCollision p g)"
  "hd (body (snake_of p g)) = powerup_pos g \<Longrightarrow> \<not> showPowerup (checkPowerupCollision p g)"
  "powerup_pos (checkPowerupCollision p g) = powerup_pos g \<or>
     \<not> showPowerup (checkPowerupCollision p g)"
  "clock (world (checkPowerupCollision p g)) = clock (world g)"
  "reads (world (checkPowerupCollision p g)) = reads (world g)"
  by (cases p; simp add: checkPowerupCollision_eq)+

lemma food_phase_returns:
  assumes ne2: "body (snake2 g) \<noteq> []"
    and food: "hd (body (snake1 g)) = food_pos g \<or> hd (body (snake2 g)) = food_pos g \<longrightarrow>
           (\<exists>k. \<not> occupied (body (snake1 g)) (body (snake2 g)) (nth_cell (world g) k))"
  shows "\<exists>g3 g4. checkFoodCollision P1 g = Some g3 \<and> checkFoodCollision P2 g3 = Some g4"
proof -
  from food have "hd (body (snake_of P1 g)) = food_pos g \<longrightarrow>
      (\<exists>k. \<not> occupied (body (snake1 g)) (body (snake2 g)) (nth_cell (world g) k))"
    by simp
  from checkFoodCollision_returns[OF this] obtain g3 where
    a: "checkFoodCollision P1 g = Some g3" by blast
  have "\<exists>g4. checkFoodCollision P2 g3 = Some g4"
  proof (cases "hd (body (snake1 g)) = food_pos g")
    case True
    with checkFoodCollision_own(3)[OF a] have "food_pos g3 \<notin> set (body (snake2 g))" by simp
    moreover have "hd (body (snake2 g)) \<in> set (body (snake2 g))" using ne2 by simp
    moreover have "snake2 g3 = snake2 g" by (rule checkFoodCollision_other(2)[OF a])
    ultimately have "hd (body (snake_of P2 g3)) \<noteq> food_pos g3" by auto
    then show ?thesis by (simp add: checkFoodCollision_eq)
  next
    case False
    with checkFoodCollision_own(4)[OF a] have "g3 = g" by simp
    with food show ?thesis by (intro checkFoodCollision_returns) simp
  qed
  with a show ?thesis by blast
qed

lemma food_phase_leaves_free:
  assumes ne2: "body (snake2 g) \<noteq> []"
    and k1: "\<not> occupied (body (snake1 g)) (body (snake2 g)) (nth_cell (world g) k1)"
    and k2: "\<not> occupied (body (snake1 g)) (body (snake2 g)) (nth_cell (world g) k2)"
    and lt: "k1 < k2"
    and a: "checkFoodCollision P1 g = Some g3" and b: "checkFoodCollision P2 g3 = Some g4"
  shows "\<exists>k. \<not> occupied (body (snake1 g)) (body (snake2 g)) (nth_cell (world g4) k)"
proof -
  have step: "\<exists>k. \<not> occupied (body (snake1 x)) (body (snake2 x)) (nth_cell (world x') k)"
    if hit: "hd (body (snake_of p x)) = food_pos x" and r: "checkFoodCollision p x = Some x'"
      and f1: "\<not> occupied (body (snake1 x)) (body (snake2 x)) (nth_cell (world x) k1)"
      and f2: "\<not> occupied (body (snake1 x)) (body (snake2 x)) (nth_cell (world x) k2)"
    for p x x'
  proof -
    from GenRandPos_leaves_free[OF f1 f2 lt] obtain q w' where
      g: "GenRandPos (body (snake1 x)) (body (snake2 x)) (world x) = Some (q, w')" and
      f: "\<exists>k. \<not> occupied (body (snake1 x)) (body (snake2 x)) (nth_cell w' k)" by blast
    from checkFoodCollision_Some[OF r] hit g have "world x' = w'" by (cases p; auto)
    with f show ?thesis by simp
  qed
  show ?thesis
  proof (cases "hd (body (snake1 g)) = food_pos g")
    case True
    then have hit: "hd (body (snake_of P1 g)) = food_pos g" by simp
    from step[OF hit a k1 k2] have f3:
      "\<exists>k. \<not> occupied (body (snake1 g)) (body (snake2 g)) (nth_cell (world g3) k)" .
    from checkFoodCollision_own(3)[OF a] True
    have "food_pos g3 \<notin> set (body (snake2 g))" by simp
    moreover have "hd (body (snake2 g)) \<in> set (body (snake2 g))" using ne2 by simp
    moreover have "snake2 g3 = snake2 g" by (rule checkFoodCollision_other(2)[OF a])
    ultimately have "hd (body (snake_of P2 g3)) \<noteq> food_pos g3" by auto
    with checkFoodCollision_own(4)[OF b] have "g4 = g3" by simp
    with f3 show ?thesis by simp
  next
    case False
    with checkFoodCollision_own(4)[OF a] have g3: "g3 = g" by simp
    show ?thesis
    proof (cases "hd (body (snake_of P2 g)) = food_pos g")
      case True
      from step[OF True b[unfolded g3] k1 k2] show ?thesis .
    next
      case False
      with checkFoodCollision_own(4)[OF b[unfolded g3]] have "g4 = g" by simp
      with k1 show ?thesis by blast
    qed
  qed
qed

lemma Game_update_returns_two:
  assumes run: "running g" and ne2: "body (snake2 g) \<noteq> []"
    and k1: "\<not> occupied (body (Snake_update (snake1 g))) (body (Snake_update (snake2 g)))
               (nth_cell (world g) k1)"
    and k2: "\<not> occupied (body (Snake_update (snake1 g))) (body (Snake_update (snake2 g)))
               (nth_cell (world g) k2)"
    and lt: "k1 < k2"
  shows "\<exists>g'. Game_update g = Some g'"
proof -
  let ?m = "moved g"
  have nem: "body (snake2 ?m) \<noteq> []"
    using ne2 by (simp add: moved_fields Snake_update_body)
  have f1: "\<not> occupied (body (snake1 ?m)) (body (snake2 ?m)) (nth_cell (world ?m) k1)"
    and f2: "\<not> occupied (body (snake1 ?m)) (body (snake2 ?m)) (nth_cell (world ?m) k2)"
    using k1 k2 by (simp_all add: moved_fields)
  from f1 have "hd (body (snake1 ?m)) = food_pos ?m \<or> hd (body (snake2 ?m)) = food_pos ?m \<longrightarrow>
      (\<exists>k. \<not> occupied (body (snake1 ?m)) (body (snake2 ?m)) (nth_cell (world ?m) k))"
    by blast
  from food_phase_returns[OF nem this] obtain g3 g4 where
    a: "checkFoodCollision P1 ?m = Some g3" and b: "checkFoodCollision P2 g3 = Some g4"
    by blast
  from food_phase_leaves_free[OF nem f1 f2 lt a b] obtain k where
    k: "\<not> occupied (body (snake1 ?m)) (body (snake2 ?m)) (nth_cell (world g4) k)" by blast
  have b4: "body (snake1 g4) = body (snake1 ?m)" "body (snake2 g4) = body (snake2 ?m)"
    using checkFoodCollision_frame(1,2)[OF a] checkFoodCollision_frame(1,2)[OF b] by simp_all
  let ?o = "togglePowerupOff (checkCollisions
              (checkPowerupCollision P2 (checkPowerupCollision P1 g4)))"
  have "\<not> occupied (body (snake1 ?o)) (body (snake2 ?o)) (nth_cell (world ?o) k)"
    using k b4
    by (simp add: togglePowerupOff_source checkCollisions_frame checkPowerupCollision_frame)
  then have "\<exists>g'. togglePowerupOn ?o = Some g'"
    by (intro togglePowerupOn_returns) blast
  with run a b show ?thesis by (simp add: Game_update_phases)
qed

lemma Game_update_returns_one:
  assumes run: "running g" and ne1: "body (snake1 g) \<noteq> []" and ne2: "body (snake2 g) \<noteq> []"
    and hidden: "\<not> showPowerup g \<or> next_head (snake1 g) = powerup_pos g
                 \<or> next_head (snake2 g) = powerup_pos g"
    and quiet: "clock (world g) (reads (world g)) - powerupOffTime g < powerupTimeGap g"
    and food: "next_head (snake1 g) = food_pos g \<or> next_head (snake2 g) = food_pos g \<longrightarrow>
           (\<exists>k. \<not> occupied (body (Snake_update (snake1 g))) (body (Snake_update (snake2 g)))
                   (nth_cell (world g) k))"
  shows "\<exists>g'. Game_update g = Some g'"
proof -
  let ?m = "moved g"
  have nem: "body (snake2 ?m) \<noteq> []"
    using ne2 by (simp add: moved_fields Snake_update_body)
  have hd: "hd (body (snake1 ?m)) = next_head (snake1 g)"
    "hd (body (snake2 ?m)) = next_head (snake2 g)"
    using ne1 ne2 by (simp_all add: moved_fields Snake_update_body)
  from food hd
  have "hd (body (snake1 ?m)) = food_pos ?m \<or> hd (body (snake2 ?m)) = food_pos ?m \<longrightarrow>
      (\<exists>k. \<not> occupied (body (snake1 ?m)) (body (snake2 ?m)) (nth_cell (world ?m) k))"
    by (simp add: moved_fields)
  from food_phase_returns[OF nem this] obtain g3 g4 where
    a: "checkFoodCollision P1 ?m = Some g3" and b: "checkFoodCollision P2 g3 = Some g4"
    by blast
  have b4: "body (snake1 g4) = body (snake1 ?m)" "body (snake2 g4) = body (snake2 ?m)"
    using checkFoodCollision_frame(1,2)[OF a] checkFoodCollision_frame(1,2)[OF b] by simp_all
  have p4: "powerup_pos g4 = powerup_pos g" "showPowerup g4 = showPowerup g"
    using checkFoodCollision_frame(3,4)[OF a] checkFoodCollision_frame(3,4)[OF b]
    by (simp_all add: moved_fields)
  have w4: "clock (world g4) = clock (world g)" "reads (world g4) = reads (world g)"
    "powerupOffTime g4 = powerupOffTime g" "powerupTimeGap g4 = powerupTimeGap g"
    using checkFoodCollision_frame(5,6,8,9)[OF a] checkFoodCollision_frame(5,6,8,9)[OF b]
    by (simp_all add: moved_fields)
  let ?h1 = "checkPowerupCollision P1 g4"
  let ?h = "checkPowerupCollision P2 ?h1"
  have hid: "\<not> showPowerup ?h"
  proof (cases "showPowerup ?h1")
    case False
    then show ?thesis by (rule checkPowerupCollision_hidden(1))
  next
    case True
    with checkPowerupCollision_hidden(1)[of g4 P1] have "showPowerup g4" by blast
    with p4 hidden have "next_head (snake1 g) = powerup_pos g
        \<or> next_head (snake2 g) = powerup_pos g" by simp
    moreover from True checkPowerupCollision_hidden(2)[of P1 g4]
    have "hd (body (snake1 g4)) \<noteq> powerup_pos g4" by auto
    moreover from True checkPowerupCollision_hidden(3)[of P1 g4]
    have "powerup_pos ?h1 = powerup_pos g4" by blast
    ultimately have "hd (body (snake_of P2 ?h1)) = powerup_pos ?h1"
      using hd b4 p4 by (simp add: checkPowerupCollision_frame)
    then show ?thesis by (rule checkPowerupCollision_hidden(2))
  qed
  let ?k = "checkCollisions ?h"
  have off: "togglePowerupOff ?k = ?k"
    using hid by (simp add: togglePowerupOff_hidden checkCollisions_frame)
  have "clock (world ?k) (reads (world ?k)) - powerupOffTime ?k < powerupTimeGap ?k"
    using quiet
    by (simp add: checkCollisions_frame checkPowerupCollision_frame
        checkPowerupCollision_hidden w4)
  then have "\<exists>g'. togglePowerupOn ?k = Some g'"
    by (intro togglePowerupOn_returns) blast
  with run a b off show ?thesis by (simp add: Game_update_phases)
qed

lemma free_samples_retry_world:
  "\<not> occupied [(7, 9), (6, 9), (5, 9)] [(17, 9), (18, 9), (19, 9)] (nth_cell retry_world 3)"
  "\<not> occupied [(7, 9), (6, 9), (5, 9)] [(17, 9), (18, 9), (19, 9)] (nth_cell retry_world 4)"
  by (simp_all add: nth_cell_eq retry_world_def occupied_def Vector2Equals_def)

lemma moved_start_bodies:
  "body (Snake_update \<lparr>body = start_body1, direction = (1, 0), addSegment = False\<rparr>)
     = [(7, 9), (6, 9), (5, 9)]"
  "body (Snake_update \<lparr>body = start_body2, direction = (- 1, 0), addSegment = False\<rparr>)
     = [(17, 9), (18, 9), (19, 9)]"
  by (simp_all add: Snake_update_def Vector2Add_def start_body1_def start_body2_def)


section \<open>Eating the food\<close>

lemma food_ahead_P1:
  assumes run: "running g" and ne1: "body (snake1 g) \<noteq> []" and ne2: "body (snake2 g) \<noteq> []"
    and ahead: "next_head (snake1 g) = food_pos g"
    and ret: "Game_update g = Some g'"
  shows "score1 g' = score1 g + 1 + (if powerup_pos g = food_pos g then 5 else 0)"
    and "addSegment (snake1 g')"
    and "body (snake1 g') = body (Snake_update (snake1 g))"
    and "body (snake2 g') = body (Snake_update (snake2 g))"
    and "in_grid (food_pos g')"
    and "food_pos g' \<notin> set (body (snake1 g'))" and "food_pos g' \<notin> set (body (snake2 g'))"
proof -
  from run ret obtain g3 g4 where
    a: "checkFoodCollision P1 (moved g) = Some g3" and
    b: "checkFoodCollision P2 g3 = Some g4" and
    c: "togglePowerupOn (togglePowerupOff (checkCollisions
            (checkPowerupCollision P2 (checkPowerupCollision P1 g4)))) = Some g'"
    by (rule Game_update_Some)
  have hd1: "hd (body (snake1 (moved g))) = food_pos g"
    using ne1 ahead by (simp add: moved_fields Snake_update_body)
  from checkFoodCollision_Some[OF a] hd1 obtain pos w' where
    gen: "GenRandPos (body (snake1 (moved g))) (body (snake2 (moved g))) (world (moved g))
            = Some (pos, w')" and
    g3: "g3 = (moved g)\<lparr>food_pos := pos, world := w',
                snake1 := (snake1 (moved g))\<lparr>addSegment := True\<rparr>,
                score1 := score1 (moved g) + 1\<rparr>"
    by (auto simp: moved_fields)
  from GenRandPos_Some(1-3)[OF gen]
  have pos: "in_grid pos" "pos \<notin> set (body (Snake_update (snake1 g)))"
    "pos \<notin> set (body (Snake_update (snake2 g)))"
    by (simp_all add: elementInDeque_set moved_fields)
  have "hd (body (snake2 g3)) \<in> set (body (Snake_update (snake2 g)))"
    using ne2 by (simp add: g3 moved_fields Snake_update_body)
  with pos have "hd (body (snake_of P2 g3)) \<noteq> food_pos g3"
    by (auto simp: g3)
  with checkFoodCollision_Some[OF b] have g4: "g4 = g3" by auto
  let ?h = "checkPowerupCollision P2 (checkPowerupCollision P1 g4)"
  have h1: "score1 ?h = score1 g + 1 + (if powerup_pos g = food_pos g then 5 else 0)"
    and h2: "addSegment (snake1 ?h)"
    and h3: "body (snake1 ?h) = body (Snake_update (snake1 g))"
    and h4: "body (snake2 ?h) = body (Snake_update (snake2 g))"
    and h5: "food_pos ?h = pos"
    using hd1
    by (auto simp: checkPowerupCollision_other checkPowerupCollision_frame g4 g3 moved_fields
        checkPowerupCollision_eq[of P1])
  from tick_tail[OF c] h1 h2 h3 h4 h5 pos
  show "score1 g' = score1 g + 1 + (if powerup_pos g = food_pos g then 5 else 0)"
    and "addSegment (snake1 g')"
    and "body (snake1 g') = body (Snake_update (snake1 g))"
    and "body (snake2 g') = body (Snake_update (snake2 g))"
    and "in_grid (food_pos g')"
    and "food_pos g' \<notin> set (body (snake1 g'))" and "food_pos g' \<notin> set (body (snake2 g'))"
    by simp_all
qed

lemma food_ahead_P2:
  assumes run: "running g" and ne1: "body (snake1 g) \<noteq> []" and ne2: "body (snake2 g) \<noteq> []"
    and grid: "in_grid (food_pos g)"
    and ahead: "next_head (snake2 g) = food_pos g"
    and first: "next_head (snake1 g) \<noteq> food_pos g"
    and ret: "Game_update g = Some g'"
  shows "score2 g' = score2 g + 1 + (if powerup_pos g = food_pos g then 5 else 0)"
    and "addSegment (snake2 g')"
    and "body (snake1 g') = body (Snake_update (snake1 g))"
    and "body (snake2 g') = body (Snake_update (snake2 g))"
    and "in_grid (food_pos g')"
    and "food_pos g' \<notin> set (body (snake1 g'))" and "food_pos g' \<notin> set (body (snake2 g'))"
proof -
  from run ret obtain g3 g4 where
    a: "checkFoodCollision P1 (moved g) = Some g3" and
    b: "checkFoodCollision P2 g3 = Some g4" and
    c: "togglePowerupOn (togglePowerupOff (checkCollisions
            (checkPowerupCollision P2 (checkPowerupCollision P1 g4)))) = Some g'"
    by (rule Game_update_Some)
  have hd1: "hd (body (snake1 (moved g))) = next_head (snake1 g)"
    using ne1 by (simp add: moved_fields Snake_update_body)
  have hd2: "hd (body (snake2 (moved g))) = food_pos g"
    using ne2 ahead by (simp add: moved_fields Snake_update_body)
  from checkFoodCollision_Some[OF a] hd1 first have g3: "g3 = moved g"
    by (auto simp: moved_fields)
  from checkFoodCollision_Some[OF b] hd2 obtain pos w' where
    gen: "GenRandPos (body (snake1 (moved g))) (body (snake2 (moved g))) (world (moved g))
            = Some (pos, w')" and
    g4: "g4 = (moved g)\<lparr>food_pos := pos, world := w',
                snake2 := (snake2 (moved g))\<lparr>addSegment := True\<rparr>,
                score2 := score2 (moved g) + 1\<rparr>"
    by (auto simp: g3 moved_fields)
  from GenRandPos_Some(1-3)[OF gen]
  have pos: "in_grid pos" "pos \<notin> set (body (Snake_update (snake1 g)))"
    "pos \<notin> set (body (Snake_update (snake2 g)))"
    by (simp_all add: elementInDeque_set moved_fields)
  from grid have sentinel: "food_pos g \<noteq> (- 1, - 1)"
    by (auto simp: in_grid_def)
  let ?h = "checkPowerupCollision P2 (checkPowerupCollision P1 g4)"
  have h1: "score2 ?h = score2 g + 1 + (if powerup_pos g = food_pos g then 5 else 0)"
    and h2: "addSegment (snake2 ?h)"
    and h3: "body (snake1 ?h) = body (Snake_update (snake1 g))"
    and h4: "body (snake2 ?h) = body (Snake_update (snake2 g))"
    and h5: "food_pos ?h = pos"
    using hd1 hd2 first sentinel
    by (auto simp: checkPowerupCollision_frame g4 moved_fields checkPowerupCollision_eq)
  from tick_tail[OF c] h1 h2 h3 h4 h5 pos
  show "score2 g' = score2 g + 1 + (if powerup_pos g = food_pos g then 5 else 0)"
    and "addSegment (snake2 g')"
    and "body (snake1 g') = body (Snake_update (snake1 g))"
    and "body (snake2 g') = body (Snake_update (snake2 g))"
    and "in_grid (food_pos g')"
    and "food_pos g' \<notin> set (body (snake1 g'))" and "food_pos g' \<notin> set (body (snake2 g'))"
    by simp_all
qed

lemma Game_update_food_ahead:
  "Game_update food_ahead = Some (food_ahead
     \<lparr>snake1 := \<lparr>body = [(7, 9), (6, 9), (5, 9)], direction = (1, 0), addSegment = True\<rparr>,
      snake2 := \<lparr>body = [(17, 9), (18, 9), (19, 9)], direction = (- 1, 0),
                 addSegment = False\<rparr>,
      food_pos := (3, 4), score1 := 1, world := retry_world\<lparr>drawn := 8, reads := 1\<rparr>\<rparr>)"
  by (simp add: tick_eval food_ahead_def base_game_def start_body1_def start_body2_def
      retry_world_def)

lemma Game_update_food_ahead2:
  "Game_update food_ahead2 = Some (food_ahead2
     \<lparr>snake1 := \<lparr>body = [(7, 9), (6, 9), (5, 9)], direction = (1, 0), addSegment = False\<rparr>,
      snake2 := \<lparr>body = [(17, 9), (18, 9), (19, 9)], direction = (- 1, 0),
                 addSegment = True\<rparr>,
      food_pos := (3, 4), score2 := 1, world := retry_world\<lparr>drawn := 8, reads := 1\<rparr>\<rparr>)"
  by (simp add: tick_eval food_ahead2_def base_game_def start_body1_def start_body2_def
      retry_world_def)

text \<open>
  In \<open>food_ahead\<close> the food lies one cell ahead of the first snake. After the tick the
  snake has its point, but its body still has three segments: the growth is only
  requested.
\<close>

theorem food_ahead_counterexample:
  "running food_ahead
   \<and> food_pos food_ahead = next_head (snake1 food_ahead)
   \<and> Game_update food_ahead \<noteq> None
   \<and> length (body (snake1 (the (Game_update food_ahead)))) = length (body (snake1 food_ahead))"
  unfolding Game_update_food_ahead
  by (simp add: food_ahead_def base_game_def start_body1_def next_head_def Vector2Add_def)

text \<open>
  What a tick has done when it returns, for the snake that reaches the food: the point,
  the request for growth, the lengths and the new place of the food.
\<close>

lemma food_ahead_partial:
  assumes "running g" and "body (snake1 g) \<noteq> []" and "body (snake2 g) \<noteq> []"
    and "in_grid (food_pos g)"
    and "next_head (snake_of p g) = food_pos g"
    and "p = P2 \<longrightarrow> next_head (snake1 g) \<noteq> food_pos g"
    and "Game_update g = Some g'"
  shows "score_of p g' = score_of p g + 1 + (if powerup_pos g = food_pos g then 5 else 0)
    \<and> addSegment (snake_of p g')
    \<and> length (body (snake_of p g'))
        = length (body (snake_of p g)) + (if addSegment (snake_of p g) then 1 else 0)
    \<and> length (body (Snake_update (snake_of p g'))) = length (body (snake_of p g')) + 1
    \<and> in_grid (food_pos g')
    \<and> food_pos g' \<notin> set (body (snake1 g')) \<and> food_pos g' \<notin> set (body (snake2 g'))"
proof (cases p)
  case P1
  with assms have ahead: "next_head (snake1 g) = food_pos g" by simp
  note r = food_ahead_P1[OF assms(1-3) ahead assms(7)]
  have ne: "body (snake1 g') \<noteq> []"
    using r(3) assms(2) by (simp add: Snake_update_body)
  from r ne assms(2) P1 show ?thesis
    by (simp add: Snake_update_body)
next
  case P2
  with assms have ahead: "next_head (snake2 g) = food_pos g"
    and first: "next_head (snake1 g) \<noteq> food_pos g" by simp_all
  note r = food_ahead_P2[OF assms(1-4) ahead first assms(7)]
  have ne: "body (snake2 g') \<noteq> []"
    using r(4) assms(3) by (simp add: Snake_update_body)
  from r ne assms(3) P2 show ?thesis
    by (simp add: Snake_update_body)
qed

text \<open>
  Claim C3, as amended. Take a running state whose food lies in the grid, one cell ahead
  of a snake's head in its direction; for the second snake, let the first snake's head
  not reach the food in the same tick (the first snake is served first and the food is
  then placed away from both heads). Whenever the tick returns, it has added exactly 1 to
  that snake's score (exactly 6 when the power-up lies on the same cell), has requested
  growth on that snake, so that its next advance makes the body longer by exactly one
  segment (during this tick the length changes only by growth that was pending before),
  and has moved the food to a cell of the grid that lies in neither body. And the tick
  does return, with all of this, as soon as the random source offers a cell free of both
  advanced bodies while the power-up is hidden and its reappearance is not due, or offers
  two such cells whatever the timers say (the reappearance of the power-up draws a
  second position).
\<close>

theorem food_ahead_tick:
  assumes "running g" and "body (snake1 g) \<noteq> []" and "body (snake2 g) \<noteq> []"
    and "in_grid (food_pos g)"
    and "next_head (snake_of p g) = food_pos g"
    and "p = P2 \<longrightarrow> next_head (snake1 g) \<noteq> food_pos g"
  shows "(\<forall>g'. Game_update g = Some g' \<longrightarrow>
            score_of p g' = score_of p g + 1 + (if powerup_pos g = food_pos g then 5 else 0)
          \<and> addSegment (snake_of p g')
          \<and> length (body (snake_of p g'))
              = length (body (snake_of p g)) + (if addSegment (snake_of p g) then 1 else 0)
          \<and> length (body (Snake_update (snake_of p g'))) = length (body (snake_of p g')) + 1
          \<and> in_grid (food_pos g')
          \<and> food_pos g' \<notin> set (body (snake1 g')) \<and> food_pos g' \<notin> set (body (snake2 g')))
    \<and> (((\<exists>k. \<not> occupied (body (Snake_update (snake1 g))) (body (Snake_update (snake2 g)))
                (nth_cell (world g) k))
          \<and> \<not> showPowerup g
          \<and> clock (world g) (reads (world g)) - powerupOffTime g < powerupTimeGap g)
        \<or> (\<exists>k1 k2. k1 < k2
              \<and> \<not> occupied (body (Snake_update (snake1 g))) (body (Snake_update (snake2 g)))
                    (nth_cell (world g) k1)
              \<and> \<not> occupied (body (Snake_update (snake1 g))) (body (Snake_update (snake2 g)))
                    (nth_cell (world g) k2))
        \<longrightarrow> (\<exists>g'. Game_update g = Some g'
          \<and> score_of p g' = score_of p g + 1 + (if powerup_pos g = food_pos g then 5 else 0)
          \<and> addSegment (snake_of p g')
          \<and> length (body (snake_of p g'))
              = length (body (snake_of p g)) + (if addSegment (snake_of p g) then 1 else 0)
          \<and> length (body (Snake_update (snake_of p g'))) = length (body (snake_of p g')) + 1
          \<and> in_grid (food_pos g')
          \<and> food_pos g' \<notin> set (body (snake1 g')) \<and> food_pos g' \<notin> set (body (snake2 g'))))"
  (is "(\<forall>g'. ?R g' \<longrightarrow> ?P g') \<and> (?H1 \<or> ?H2 \<longrightarrow> (\<exists>g'. ?Q g'))")
proof -
  have part: "?P g'" if "Game_update g = Some g'" for g'
    using food_ahead_partial[OF assms that] .
  have ret: "\<exists>g'. Game_update g = Some g'" if "?H1 \<or> ?H2"
    using that
  proof
    assume h: ?H1
    then have "\<not> showPowerup g \<or> next_head (snake1 g) = powerup_pos g
        \<or> next_head (snake2 g) = powerup_pos g" by blast
    moreover from h have "next_head (snake1 g) = food_pos g \<or> next_head (snake2 g) = food_pos g
      \<longrightarrow> (\<exists>k. \<not> occupied (body (Snake_update (snake1 g))) (body (Snake_update (snake2 g)))
                   (nth_cell (world g) k))" by blast
    ultimately show ?thesis
      using h by (intro Game_update_returns_one[OF assms(1-3)]) blast+
  next
    assume ?H2
    then obtain k1 k2 where "k1 < k2"
      "\<not> occupied (body (Snake_update (snake1 g))) (body (Snake_update (snake2 g)))
          (nth_cell (world g) k1)"
      "\<not> occupied (body (Snake_update (snake1 g))) (body (Snake_update (snake2 g)))
          (nth_cell (world g) k2)" by blast
    from Game_update_returns_two[OF assms(1,3) this(2,3,1)] show ?thesis .
  qed
  from part have "\<forall>g'. ?R g' \<longrightarrow> ?P g'" by blast
  moreover have "?H1 \<or> ?H2 \<longrightarrow> (\<exists>g'. ?Q g')"
  proof
    assume "?H1 \<or> ?H2"
    from ret[OF this] obtain g' where r: "Game_update g = Some g'" by blast
    with part[OF r] show "\<exists>g'. ?Q g'" by blast
  qed
  ultimately show ?thesis by blast
qed

theorem food_ahead_tick_witness:
  "running food_ahead \<and> body (snake1 food_ahead) \<noteq> [] \<and> body (snake2 food_ahead) \<noteq> []
   \<and> in_grid (food_pos food_ahead)
   \<and> next_head (snake_of P1 food_ahead) = food_pos food_ahead
   \<and> \<not> occupied (body (Snake_update (snake1 food_ahead)))
         (body (Snake_update (snake2 food_ahead))) (nth_cell (world food_ahead) 3)
   \<and> \<not> showPowerup food_ahead
   \<and> clock (world food_ahead) (reads (world food_ahead)) - powerupOffTime food_ahead
       < powerupTimeGap food_ahead
   \<and> (\<exists>g'. Game_update food_ahead = Some g' \<and> score1 g' = 1 \<and> addSegment (snake1 g')
         \<and> length (body (snake1 g')) = 3
         \<and> length (body (Snake_update (snake1 g'))) = 4
         \<and> food_pos g' \<notin> set (body (snake1 g')) \<and> food_pos g' \<notin> set (body (snake2 g')))
   \<and> score1 (the (Game_update food_ahead)) = 1
   \<and> next_head (snake_of P2 food_ahead2_due) = food_pos food_ahead2_due
   \<and> next_head (snake1 food_ahead2_due) \<noteq> food_pos food_ahead2_due
   \<and> \<not> occupied (body (Snake_update (snake1 food_ahead2_due)))
         (body (Snake_update (snake2 food_ahead2_due))) (nth_cell (world food_ahead2_due) 3)
   \<and> \<not> occupied (body (Snake_update (snake1 food_ahead2_due)))
         (body (Snake_update (snake2 food_ahead2_due))) (nth_cell (world food_ahead2_due) 4)
   \<and> (\<exists>g'. Game_update food_ahead2_due = Some g' \<and> score2 g' = 1 \<and> addSegment (snake2 g')
         \<and> length (body (snake2 g')) = 3)"
proof -
  have a1: "running food_ahead" "body (snake1 food_ahead) \<noteq> []"
    "body (snake2 food_ahead) \<noteq> []" "in_grid (food_pos food_ahead)"
    "next_head (snake_of P1 food_ahead) = food_pos food_ahead"
    "P1 = P2 \<longrightarrow> next_head (snake1 food_ahead) \<noteq> food_pos food_ahead"
    by (simp_all add: food_ahead_def base_game_def start_body1_def start_body2_def in_grid_def
        cellCount_def next_head_def Vector2Add_def)
  have f1: "\<not> occupied (body (Snake_update (snake1 food_ahead)))
         (body (Snake_update (snake2 food_ahead))) (nth_cell (world food_ahead) 3)"
    by (simp add: food_ahead_def base_game_def moved_start_bodies free_samples_retry_world)
  have q1: "\<not> showPowerup food_ahead"
    "clock (world food_ahead) (reads (world food_ahead)) - powerupOffTime food_ahead
       < powerupTimeGap food_ahead"
    by (simp_all add: food_ahead_def base_game_def retry_world_def)
  have v1: "score_of P1 food_ahead = 0" "powerup_pos food_ahead \<noteq> food_pos food_ahead"
    "length (body (snake_of P1 food_ahead)) = 3" "\<not> addSegment (snake_of P1 food_ahead)"
    by (simp_all add: food_ahead_def base_game_def start_body1_def)
  have a2: "running food_ahead2_due" "body (snake1 food_ahead2_due) \<noteq> []"
    "body (snake2 food_ahead2_due) \<noteq> []" "in_grid (food_pos food_ahead2_due)"
    "next_head (snake_of P2 food_ahead2_due) = food_pos food_ahead2_due"
    "P2 = P2 \<longrightarrow> next_head (snake1 food_ahead2_due) \<noteq> food_pos food_ahead2_due"
    by (simp_all add: food_ahead2_due_def food_ahead2_def base_game_def start_body1_def
        start_body2_def in_grid_def cellCount_def next_head_def Vector2Add_def)
  have f2: "\<not> occupied (body (Snake_update (snake1 food_ahead2_due)))
         (body (Snake_update (snake2 food_ahead2_due))) (nth_cell (world food_ahead2_due) 3)"
    "\<not> occupied (body (Snake_update (snake1 food_ahead2_due)))
         (body (Snake_update (snake2 food_ahead2_due))) (nth_cell (world food_ahead2_due) 4)"
    by (simp_all add: food_ahead2_due_def food_ahead2_def base_game_def moved_start_bodies
        free_samples_retry_world)
  have v2: "score_of P2 food_ahead2_due = 0"
    "powerup_pos food_ahead2_due \<noteq> food_pos food_ahead2_due"
    "length (body (snake_of P2 food_ahead2_due)) = 3"
    "\<not> addSegment (snake_of P2 food_ahead2_due)"
    by (simp_all add: food_ahead2_due_def food_ahead2_def base_game_def start_body2_def)
  have lt: "(3::nat) < 4" by simp
  from f1 q1 have h1:
    "((\<exists>k. \<not> occupied (body (Snake_update (snake1 food_ahead)))
              (body (Snake_update (snake2 food_ahead))) (nth_cell (world food_ahead) k))
        \<and> \<not> showPowerup food_ahead
        \<and> clock (world food_ahead) (reads (world food_ahead)) - powerupOffTime food_ahead
            < powerupTimeGap food_ahead)
     \<or> (\<exists>k1 k2. k1 < k2
          \<and> \<not> occupied (body (Snake_update (snake1 food_ahead)))
                (body (Snake_update (snake2 food_ahead))) (nth_cell (world food_ahead) k1)
          \<and> \<not> occupied (body (Snake_update (snake1 food_ahead)))
                (body (Snake_update (snake2 food_ahead))) (nth_cell (world food_ahead) k2))"
    by blast
  from food_ahead_tick [OF a1, THEN conjunct2, THEN mp, OF h1] obtain g1 where
    r1: "Game_update food_ahead = Some g1" and
    p1: "score_of P1 g1 = score_of P1 food_ahead + 1
          + (if powerup_pos food_ahead = food_pos food_ahead then 5 else 0)"
      "addSegment (snake_of P1 g1)"
      "length (body (snake_of P1 g1)) = length (body (snake_of P1 food_ahead))
          + (if addSegment (snake_of P1 food_ahead) then 1 else 0)"
      "length (body (Snake_update (snake_of P1 g1))) = length (body (snake_of P1 g1)) + 1"
      "food_pos g1 \<notin> set (body (snake1 g1))" "food_pos g1 \<notin> set (body (snake2 g1))"
    by blast
  from p1 v1 have c1: "score1 g1 = 1" "addSegment (snake1 g1)" "length (body (snake1 g1)) = 3"
    "length (body (Snake_update (snake1 g1))) = 4"
    by simp_all
  from r1 c1 p1(5,6)
  have e1: "\<exists>g'. Game_update food_ahead = Some g' \<and> score1 g' = 1 \<and> addSegment (snake1 g')
         \<and> length (body (snake1 g')) = 3
         \<and> length (body (Snake_update (snake1 g'))) = 4
         \<and> food_pos g' \<notin> set (body (snake1 g')) \<and> food_pos g' \<notin> set (body (snake2 g'))"
    by blast
  from r1 c1 have s1: "score1 (the (Game_update food_ahead)) = 1" by simp
  from f2 lt have h2:
    "((\<exists>k. \<not> occupied (body (Snake_update (snake1 food_ahead2_due)))
              (body (Snake_update (snake2 food_ahead2_due))) (nth_cell (world food_ahead2_due) k))
        \<and> \<not> showPowerup food_ahead2_due
        \<and> clock (world food_ahead2_due) (reads (world food_ahead2_due))
              - powerupOffTime food_ahead2_due < powerupTimeGap food_ahead2_due)
     \<or> (\<exists>k1 k2. k1 < k2
          \<and> \<not> occupied (body (Snake_update (snake1 food_ahead2_due)))
                (body (Snake_update (snake2 food_ahead2_due)))
                (nth_cell (world food_ahead2_due) k1)
          \<and> \<not> occupied (body (Snake_update (snake1 food_ahead2_due)))
                (body (Snake_update (snake2 food_ahead2_due)))
                (nth_cell (world food_ahead2_due) k2))"
    by blast
  from food_ahead_tick [OF a2, THEN conjunct2, THEN mp, OF h2] obtain g2 where
    r2: "Game_update food_ahead2_due = Some g2" and
    p2: "score_of P2 g2 = score_of P2 food_ahead2_due + 1
          + (if powerup_pos food_ahead2_due = food_pos food_ahead2_due then 5 else 0)"
      "addSegment (snake_of P2 g2)"
      "length (body (snake_of P2 g2)) = length (body (snake_of P2 food_ahead2_due))
          + (if addSegment (snake_of P2 food_ahead2_due) then 1 else 0)"
    by blast
  from p2 v2 have c2: "score2 g2 = 1" "addSegment (snake2 g2)" "length (body (snake2 g2)) = 3"
    by simp_all
  from r2 c2
  have e2: "\<exists>g'. Game_update food_ahead2_due = Some g' \<and> score2 g' = 1
         \<and> addSegment (snake2 g') \<and> length (body (snake2 g')) = 3"
    by blast
  from a1(1-5) a2(5) a2(6) f1 f2 q1 e1 e2 s1 show ?thesis
    by (intro conjI) simp_all
qed


section \<open>Eating the power-up\<close>

lemma tick_tail_powerup:
  assumes c: "togglePowerupOn (togglePowerupOff (checkCollisions h)) = Some g'"
    and hidden: "\<not> showPowerup h"
    and quiet: "clock (world h) (reads (world h)) - powerupOffTime h < powerupTimeGap h"
  shows "powerup_pos g' = powerup_pos h" and "\<not> showPowerup g'"
proof -
  let ?k = "checkCollisions h"
  have off: "togglePowerupOff ?k = ?k"
    using hidden by (simp add: togglePowerupOff_hidden checkCollisions_frame)
  have "togglePowerupOn ?k =
          Some (?k\<lparr>powerupOffTime := powerupOffTime ?k,
                  world := (world ?k)\<lparr>reads := Suc (reads (world ?k))\<rparr>\<rparr>)"
    using hidden quiet by (intro togglePowerupOn_quiet) (simp_all add: checkCollisions_frame)
  with c off have "g' = ?k\<lparr>powerupOffTime := powerupOffTime ?k,
                  world := (world ?k)\<lparr>reads := Suc (reads (world ?k))\<rparr>\<rparr>"
    by simp
  then show "powerup_pos g' = powerup_pos h" and "\<not> showPowerup g'"
    using hidden by (simp_all add: checkCollisions_frame)
qed

lemma powerup_hit_P1:
  assumes run: "running g" and ne1: "body (snake1 g) \<noteq> []"
    and hit: "next_head (snake1 g) = powerup_pos g"
    and ret: "Game_update g = Some g'"
  shows "score1 g' = score1 g + 5 + (if food_pos g = powerup_pos g then 1 else 0)"
    and "addSegment (snake1 g')"
    and "clock (world g) (reads (world g)) - powerupOffTime g < powerupTimeGap g \<Longrightarrow>
           powerup_pos g' = (- 1, - 1) \<and> \<not> showPowerup g'"
proof -
  from run ret obtain g3 g4 where
    a: "checkFoodCollision P1 (moved g) = Some g3" and
    b: "checkFoodCollision P2 g3 = Some g4" and
    c: "togglePowerupOn (togglePowerupOff (checkCollisions
            (checkPowerupCollision P2 (checkPowerupCollision P1 g4)))) = Some g'"
    by (rule Game_update_Some)
  let ?h = "checkPowerupCollision P2 (checkPowerupCollision P1 g4)"
  have hd1: "hd (body (snake1 (moved g))) = powerup_pos g"
    using ne1 hit by (simp add: moved_fields Snake_update_body)
  have s4: "score1 g4 = score1 g + (if food_pos g = powerup_pos g then 1 else 0)"
    using checkFoodCollision_own(1)[OF a] checkFoodCollision_other2(1)[OF b] hd1
    by (auto simp: moved_fields)
  have b4: "body (snake1 g4) = body (snake1 (moved g))"
    using checkFoodCollision_frame(1)[OF a] checkFoodCollision_frame(1)[OF b] by simp
  have p4: "powerup_pos g4 = powerup_pos g"
    using checkFoodCollision_frame(3)[OF a] checkFoodCollision_frame(3)[OF b]
    by (simp add: moved_fields)
  have w4: "clock (world g4) = clock (world g)" "reads (world g4) = reads (world g)"
    "powerupOffTime g4 = powerupOffTime g" "powerupTimeGap g4 = powerupTimeGap g"
    using checkFoodCollision_frame(5,6,8,9)[OF a] checkFoodCollision_frame(5,6,8,9)[OF b]
    by (simp_all add: moved_fields)
  have h1: "score1 ?h = score1 g + 5 + (if food_pos g = powerup_pos g then 1 else 0)"
    and h2: "addSegment (snake1 ?h)"
    and h3: "powerup_pos ?h = (- 1, - 1)" and h4: "\<not> showPowerup ?h"
    using hd1 b4 p4 s4
    by (auto simp: checkPowerupCollision_other checkPowerupCollision_eq)
  from tick_tail[OF c] h1 h2
  show "score1 g' = score1 g + 5 + (if food_pos g = powerup_pos g then 1 else 0)"
    and "addSegment (snake1 g')"
    by simp_all
  assume "clock (world g) (reads (world g)) - powerupOffTime g < powerupTimeGap g"
  then have "clock (world ?h) (reads (world ?h)) - powerupOffTime ?h < powerupTimeGap ?h"
    by (simp add: checkPowerupCollision_frame w4)
  from tick_tail_powerup[OF c h4 this] h3
  show "powerup_pos g' = (- 1, - 1) \<and> \<not> showPowerup g'" by simp
qed

lemma powerup_hit_P2:
  assumes run: "running g" and ne1: "body (snake1 g) \<noteq> []" and ne2: "body (snake2 g) \<noteq> []"
    and hit: "next_head (snake2 g) = powerup_pos g"
    and first: "next_head (snake1 g) \<noteq> powerup_pos g"
    and ret: "Game_update g = Some g'"
  shows "score2 g' = score2 g + 5 + (if food_pos g = powerup_pos g then 1 else 0)"
    and "addSegment (snake2 g')"
    and "clock (world g) (reads (world g)) - powerupOffTime g < powerupTimeGap g \<Longrightarrow>
           powerup_pos g' = (- 1, - 1) \<and> \<not> showPowerup g'"
proof -
  from run ret obtain g3 g4 where
    a: "checkFoodCollision P1 (moved g) = Some g3" and
    b: "checkFoodCollision P2 g3 = Some g4" and
    c: "togglePowerupOn (togglePowerupOff (checkCollisions
            (checkPowerupCollision P2 (checkPowerupCollision P1 g4)))) = Some g'"
    by (rule Game_update_Some)
  let ?h = "checkPowerupCollision P2 (checkPowerupCollision P1 g4)"
  have hd1: "hd (body (snake1 (moved g))) = next_head (snake1 g)"
    using ne1 by (simp add: moved_fields Snake_update_body)
  have hd2: "hd (body (snake2 (moved g))) = powerup_pos g"
    and in2: "powerup_pos g \<in> set (body (snake2 (moved g)))"
    using ne2 hit Snake_update_body(5)[OF ne2] by (simp_all add: moved_fields Snake_update_body)
  have s3: "snake2 g3 = snake2 (moved g)" "score2 g3 = score2 g"
    using checkFoodCollision_other[OF a] by (simp_all add: moved_fields)
  have s4: "score2 g4 = score2 g + (if food_pos g = powerup_pos g then 1 else 0)"
  proof (cases "hd (body (snake1 (moved g))) = food_pos (moved g)")
    case True
    from checkFoodCollision_own(3)[OF a] True
    have "food_pos g3 \<notin> set (body (snake2 (moved g)))" by simp
    with in2 have "food_pos g3 \<noteq> powerup_pos g" by auto
    moreover from True hd1 first have "food_pos g \<noteq> powerup_pos g"
      by (auto simp: moved_fields)
    ultimately show ?thesis
      using checkFoodCollision_own(1)[OF b] s3 hd2 by auto
  next
    case False
    from checkFoodCollision_own(4)[OF a] False have "g3 = moved g" by simp
    with checkFoodCollision_own(1)[OF b] hd2 show ?thesis
      by (auto simp: moved_fields)
  qed
  have b4: "body (snake1 g4) = body (snake1 (moved g))" "body (snake2 g4) = body (snake2 (moved g))"
    using checkFoodCollision_frame(1,2)[OF a] checkFoodCollision_frame(1,2)[OF b] by simp_all
  have p4: "powerup_pos g4 = powerup_pos g"
    using checkFoodCollision_frame(3)[OF a] checkFoodCollision_frame(3)[OF b]
    by (simp add: moved_fields)
  have w4: "clock (world g4) = clock (world g)" "reads (world g4) = reads (world g)"
    "powerupOffTime g4 = powerupOffTime g" "powerupTimeGap g4 = powerupTimeGap g"
    using checkFoodCollision_frame(5,6,8,9)[OF a] checkFoodCollision_frame(5,6,8,9)[OF b]
    by (simp_all add: moved_fields)
  have miss: "checkPowerupCollision P1 g4 = g4"
    using hd1 first b4 p4 by (simp add: checkPowerupCollision_eq)
  have h1: "score2 ?h = score2 g + 5 + (if food_pos g = powerup_pos g then 1 else 0)"
    and h2: "addSegment (snake2 ?h)"
    and h3: "powerup_pos ?h = (- 1, - 1)" and h4: "\<not> showPowerup ?h"
    unfolding miss using hd2 b4 p4 s4
    by (auto simp: checkPowerupCollision_eq)
  from tick_tail[OF c] h1 h2
  show "score2 g' = score2 g + 5 + (if food_pos g = powerup_pos g then 1 else 0)"
    and "addSegment (snake2 g')"
    by simp_all
  assume "clock (world g) (reads (world g)) - powerupOffTime g < powerupTimeGap g"
  then have "clock (world ?h) (reads (world ?h)) - powerupOffTime ?h < powerupTimeGap ?h"
    by (simp add: checkPowerupCollision_frame w4)
  from tick_tail_powerup[OF c h4 this] h3
  show "powerup_pos g' = (- 1, - 1) \<and> \<not> showPowerup g'" by simp
qed

lemma Game_update_powerup_ahead:
  "Game_update powerup_ahead = Some (powerup_ahead
     \<lparr>snake1 := \<lparr>body = [(7, 9), (6, 9), (5, 9)], direction = (1, 0), addSegment = True\<rparr>,
      snake2 := \<lparr>body = [(17, 9), (18, 9), (19, 9)], direction = (- 1, 0),
                 addSegment = False\<rparr>,
      powerup_pos := (- 1, - 1), showPowerup := False, score1 := 5,
      world := retry_world\<lparr>reads := 1\<rparr>\<rparr>)"
  by (simp add: tick_eval powerup_ahead_def base_game_def start_body1_def start_body2_def
      retry_world_def)

lemma Game_update_powerup_ahead2:
  "Game_update powerup_ahead2 = Some (powerup_ahead2
     \<lparr>snake1 := \<lparr>body = [(7, 9), (6, 9), (5, 9)], direction = (1, 0), addSegment = False\<rparr>,
      snake2 := \<lparr>body = [(17, 9), (18, 9), (19, 9)], direction = (- 1, 0),
                 addSegment = True\<rparr>,
      powerup_pos := (- 1, - 1), showPowerup := False, score2 := 5,
      world := retry_world\<lparr>reads := 1\<rparr>\<rparr>)"
  by (simp add: tick_eval powerup_ahead2_def base_game_def start_body1_def start_body2_def
      retry_world_def)

lemma Game_update_powerup_between:
  "Game_update powerup_between = Some (powerup_between
     \<lparr>snake1 := \<lparr>body = [(12, 9), (11, 9), (10, 9)], direction = (1, 0), addSegment = True\<rparr>,
      snake2 := \<lparr>body = [(12, 9), (13, 9), (14, 9)], direction = (- 1, 0),
                 addSegment = False\<rparr>,
      powerup_pos := (- 1, - 1), showPowerup := False, score1 := 5,
      running := False, gameOver := True, winnerMessage := ''Player 1 Wins!'',
      world := retry_world\<lparr>reads := 1\<rparr>\<rparr>)"
  by (simp add: tick_eval powerup_between_def headon_before_def base_game_def retry_world_def)

text \<open>
  In \<open>powerup_between\<close> both heads advance onto the cell of the power-up. The first
  snake is checked first and takes it; the second snake gets neither points nor growth.
\<close>

theorem powerup_hit_counterexample:
  "running powerup_between
   \<and> next_head (snake2 powerup_between) = powerup_pos powerup_between
   \<and> Game_update powerup_between \<noteq> None
   \<and> score2 (the (Game_update powerup_between)) = score2 powerup_between
   \<and> \<not> addSegment (snake2 (the (Game_update powerup_between)))"
  unfolding Game_update_powerup_between
  by (simp add: powerup_between_def headon_before_def base_game_def next_head_def
      Vector2Add_def)

text \<open>
  What a tick has done when it returns, for the snake that reaches the power-up.
\<close>

lemma powerup_hit_partial:
  assumes "running g" and "body (snake1 g) \<noteq> []" and "body (snake2 g) \<noteq> []"
    and "next_head (snake_of p g) = powerup_pos g"
    and "p = P2 \<longrightarrow> next_head (snake1 g) \<noteq> powerup_pos g"
    and "Game_update g = Some g'"
  shows "score_of p g' = score_of p g + 5 + (if food_pos g = powerup_pos g then 1 else 0)
    \<and> addSegment (snake_of p g')
    \<and> (clock (world g) (reads (world g)) - powerupOffTime g < powerupTimeGap g \<longrightarrow>
          powerup_pos g' = (- 1, - 1) \<and> \<not> showPowerup g')"
proof (cases p)
  case P1
  with assms have hit: "next_head (snake1 g) = powerup_pos g" by simp
  from powerup_hit_P1[OF assms(1,2) hit assms(6)] P1 show ?thesis by simp
next
  case P2
  with assms have hit: "next_head (snake2 g) = powerup_pos g"
    and first: "next_head (snake1 g) \<noteq> powerup_pos g" by simp_all
  from powerup_hit_P2[OF assms(1-3) hit first assms(6)] P2 show ?thesis by simp
qed

text \<open>
  Claim C8, as amended. Take a running state in which the head of the first snake, after
  advancing, equals the power-up's position, or the head of the second snake does and the
  head of the first does not. Whenever the tick returns, it has added exactly 5 to that
  snake's score for the power-up (exactly 6 in all when the food lies on the same cell)
  and has requested growth on that snake; the power-up has been deactivated, and at the
  end of the tick its position is the sentinel \<open>(-1, -1)\<close> and it is hidden, unless the
  timer of \<^verbatim>\<open>togglePowerupOn\<close> is due in this very tick. And the tick does return, with
  all of this: without any condition on the random source when that timer is not due and
  no head reaches the food (no position is drawn then); when the timer is not due and a
  head reaches the food, as soon as the random source offers a cell free of both advanced
  bodies; and in every case as soon as it offers two such cells.
\<close>

theorem powerup_hit_tick:
  assumes "running g" and "body (snake1 g) \<noteq> []" and "body (snake2 g) \<noteq> []"
    and "next_head (snake_of p g) = powerup_pos g"
    and "p = P2 \<longrightarrow> next_head (snake1 g) \<noteq> powerup_pos g"
  shows "(\<forall>g'. Game_update g = Some g' \<longrightarrow>
            score_of p g' = score_of p g + 5 + (if food_pos g = powerup_pos g then 1 else 0)
          \<and> addSegment (snake_of p g')
          \<and> (clock (world g) (reads (world g)) - powerupOffTime g < powerupTimeGap g \<longrightarrow>
                powerup_pos g' = (- 1, - 1) \<and> \<not> showPowerup g'))
    \<and> ((clock (world g) (reads (world g)) - powerupOffTime g < powerupTimeGap g
          \<and> (next_head (snake1 g) = food_pos g \<or> next_head (snake2 g) = food_pos g \<longrightarrow>
               (\<exists>k. \<not> occupied (body (Snake_update (snake1 g))) (body (Snake_update (snake2 g)))
                       (nth_cell (world g) k))))
        \<or> (\<exists>k1 k2. k1 < k2
              \<and> \<not> occupied (body (Snake_update (snake1 g))) (body (Snake_update (snake2 g)))
                    (nth_cell (world g) k1)
              \<and> \<not> occupied (body (Snake_update (snake1 g))) (body (Snake_update (snake2 g)))
                    (nth_cell (world g) k2))
        \<longrightarrow> (\<exists>g'. Game_update g = Some g'
          \<and> score_of p g' = score_of p g + 5 + (if food_pos g = powerup_pos g then 1 else 0)
          \<and> addSegment (snake_of p g')
          \<and> (clock (world g) (reads (world g)) - powerupOffTime g < powerupTimeGap g \<longrightarrow>
                powerup_pos g' = (- 1, - 1) \<and> \<not> showPowerup g')))"
  (is "(\<forall>g'. ?R g' \<longrightarrow> ?P g') \<and> (?H1 \<or> ?H2 \<longrightarrow> (\<exists>g'. ?Q g'))")
proof -
  have part: "?P g'" if "Game_update g = Some g'" for g'
    using powerup_hit_partial[OF assms that] .
  have hit: "next_head (snake1 g) = powerup_pos g \<or> next_head (snake2 g) = powerup_pos g"
    using assms(4) by (cases p) simp_all
  have ret: "\<exists>g'. Game_update g = Some g'" if "?H1 \<or> ?H2"
    using that
  proof
    assume h: ?H1
    from hit have "\<not> showPowerup g \<or> next_head (snake1 g) = powerup_pos g
        \<or> next_head (snake2 g) = powerup_pos g" by blast
    with h show ?thesis
      by (intro Game_update_returns_one[OF assms(1-3)]) blast+
  next
    assume ?H2
    then obtain k1 k2 where "k1 < k2"
      "\<not> occupied (body (Snake_update (snake1 g))) (body (Snake_update (snake2 g)))
          (nth_cell (world g) k1)"
      "\<not> occupied (body (Snake_update (snake1 g))) (body (Snake_update (snake2 g)))
          (nth_cell (world g) k2)" by blast
    from Game_update_returns_two[OF assms(1,3) this(2,3,1)] show ?thesis .
  qed
  from part have "\<forall>g'. ?R g' \<longrightarrow> ?P g'" by blast
  moreover have "?H1 \<or> ?H2 \<longrightarrow> (\<exists>g'. ?Q g')"
  proof
    assume "?H1 \<or> ?H2"
    from ret[OF this] obtain g' where r: "Game_update g = Some g'" by blast
    with part[OF r] show "\<exists>g'. ?Q g'" by blast
  qed
  ultimately show ?thesis by blast
qed

theorem powerup_hit_tick_witness:
  "running powerup_ahead \<and> body (snake1 powerup_ahead) \<noteq> [] \<and> body (snake2 powerup_ahead) \<noteq> []
   \<and> next_head (snake_of P1 powerup_ahead) = powerup_pos powerup_ahead
   \<and> clock (world powerup_ahead) (reads (world powerup_ahead)) - powerupOffTime powerup_ahead
        < powerupTimeGap powerup_ahead
   \<and> next_head (snake1 powerup_ahead) \<noteq> food_pos powerup_ahead
   \<and> next_head (snake2 powerup_ahead) \<noteq> food_pos powerup_ahead
   \<and> (\<exists>g'. Game_update powerup_ahead = Some g' \<and> score1 g' = 5 \<and> addSegment (snake1 g')
         \<and> powerup_pos g' = (- 1, - 1) \<and> \<not> showPowerup g')
   \<and> next_head (snake_of P2 powerup_food2) = powerup_pos powerup_food2
   \<and> next_head (snake1 powerup_food2) \<noteq> powerup_pos powerup_food2
   \<and> clock (world powerup_food2) (reads (world powerup_food2)) - powerupOffTime powerup_food2
        < powerupTimeGap powerup_food2
   \<and> \<not> occupied (body (Snake_update (snake1 powerup_food2)))
         (body (Snake_update (snake2 powerup_food2))) (nth_cell (world powerup_food2) 3)
   \<and> (\<exists>g'. Game_update powerup_food2 = Some g' \<and> score2 g' = 6 \<and> addSegment (snake2 g')
         \<and> powerup_pos g' = (- 1, - 1) \<and> \<not> showPowerup g')"
proof -
  have a1: "running powerup_ahead" "body (snake1 powerup_ahead) \<noteq> []"
    "body (snake2 powerup_ahead) \<noteq> []"
    "next_head (snake_of P1 powerup_ahead) = powerup_pos powerup_ahead"
    "P1 = P2 \<longrightarrow> next_head (snake1 powerup_ahead) \<noteq> powerup_pos powerup_ahead"
    by (simp_all add: powerup_ahead_def base_game_def start_body1_def start_body2_def
        next_head_def Vector2Add_def)
  have q1: "clock (world powerup_ahead) (reads (world powerup_ahead))
      - powerupOffTime powerup_ahead < powerupTimeGap powerup_ahead"
    by (simp add: powerup_ahead_def base_game_def retry_world_def)
  have n1: "next_head (snake1 powerup_ahead) \<noteq> food_pos powerup_ahead"
    "next_head (snake2 powerup_ahead) \<noteq> food_pos powerup_ahead"
    by (simp_all add: powerup_ahead_def base_game_def start_body1_def start_body2_def
        next_head_def Vector2Add_def)
  have v1: "score_of P1 powerup_ahead = 0" "food_pos powerup_ahead \<noteq> powerup_pos powerup_ahead"
    by (simp_all add: powerup_ahead_def base_game_def)
  from q1 n1 have h1:
    "(clock (world powerup_ahead) (reads (world powerup_ahead)) - powerupOffTime powerup_ahead
          < powerupTimeGap powerup_ahead
        \<and> (next_head (snake1 powerup_ahead) = food_pos powerup_ahead
            \<or> next_head (snake2 powerup_ahead) = food_pos powerup_ahead \<longrightarrow>
             (\<exists>k. \<not> occupied (body (Snake_update (snake1 powerup_ahead)))
                     (body (Snake_update (snake2 powerup_ahead)))
                     (nth_cell (world powerup_ahead) k))))
     \<or> (\<exists>k1 k2. k1 < k2
          \<and> \<not> occupied (body (Snake_update (snake1 powerup_ahead)))
                (body (Snake_update (snake2 powerup_ahead))) (nth_cell (world powerup_ahead) k1)
          \<and> \<not> occupied (body (Snake_update (snake1 powerup_ahead)))
                (body (Snake_update (snake2 powerup_ahead))) (nth_cell (world powerup_ahead) k2))"
    by blast
  from powerup_hit_tick [OF a1, THEN conjunct2, THEN mp, OF h1] obtain g1 where
    r1: "Game_update powerup_ahead = Some g1" and
    p1: "score_of P1 g1 = score_of P1 powerup_ahead + 5
          + (if food_pos powerup_ahead = powerup_pos powerup_ahead then 1 else 0)"
      "addSegment (snake_of P1 g1)"
      "clock (world powerup_ahead) (reads (world powerup_ahead)) - powerupOffTime powerup_ahead
          < powerupTimeGap powerup_ahead \<longrightarrow> powerup_pos g1 = (- 1, - 1) \<and> \<not> showPowerup g1"
    by blast
  from p1 v1 q1 have c1: "score1 g1 = 5" "addSegment (snake1 g1)"
    "powerup_pos g1 = (- 1, - 1)" "\<not> showPowerup g1"
    by simp_all
  from r1 c1
  have e1: "\<exists>g'. Game_update powerup_ahead = Some g' \<and> score1 g' = 5 \<and> addSegment (snake1 g')
         \<and> powerup_pos g' = (- 1, - 1) \<and> \<not> showPowerup g'"
    by blast
  have a2: "running powerup_food2" "body (snake1 powerup_food2) \<noteq> []"
    "body (snake2 powerup_food2) \<noteq> []"
    "next_head (snake_of P2 powerup_food2) = powerup_pos powerup_food2"
    "P2 = P2 \<longrightarrow> next_head (snake1 powerup_food2) \<noteq> powerup_pos powerup_food2"
    by (simp_all add: powerup_food2_def powerup_ahead2_def base_game_def start_body1_def
        start_body2_def next_head_def Vector2Add_def)
  have q2: "clock (world powerup_food2) (reads (world powerup_food2))
      - powerupOffTime powerup_food2 < powerupTimeGap powerup_food2"
    by (simp add: powerup_food2_def powerup_ahead2_def base_game_def retry_world_def)
  have f2: "\<not> occupied (body (Snake_update (snake1 powerup_food2)))
         (body (Snake_update (snake2 powerup_food2))) (nth_cell (world powerup_food2) 3)"
    by (simp add: powerup_food2_def powerup_ahead2_def base_game_def moved_start_bodies
        free_samples_retry_world)
  have v2: "score_of P2 powerup_food2 = 0" "food_pos powerup_food2 = powerup_pos powerup_food2"
    by (simp_all add: powerup_food2_def powerup_ahead2_def base_game_def)
  from q2 f2 have h2:
    "(clock (world powerup_food2) (reads (world powerup_food2)) - powerupOffTime powerup_food2
          < powerupTimeGap powerup_food2
        \<and> (next_head (snake1 powerup_food2) = food_pos powerup_food2
            \<or> next_head (snake2 powerup_food2) = food_pos powerup_food2 \<longrightarrow>
             (\<exists>k. \<not> occupied (body (Snake_update (snake1 powerup_food2)))
                     (body (Snake_update (snake2 powerup_food2)))
                     (nth_cell (world powerup_food2) k))))
     \<or> (\<exists>k1 k2. k1 < k2
          \<and> \<not> occupied (body (Snake_update (snake1 powerup_food2)))
                (body (Snake_update (snake2 powerup_food2))) (nth_cell (world powerup_food2) k1)
          \<and> \<not> occupied (body (Snake_update (snake1 powerup_food2)))
                (body (Snake_update (snake2 powerup_food2))) (nth_cell (world powerup_food2) k2))"
    by blast
  from powerup_hit_tick [OF a2, THEN conjunct2, THEN mp, OF h2] obtain g2 where
    r2: "Game_update powerup_food2 = Some g2" and
    p2: "score_of P2 g2 = score_of P2 powerup_food2 + 5
          + (if food_pos powerup_food2 = powerup_pos powerup_food2 then 1 else 0)"
      "addSegment (snake_of P2 g2)"
      "clock (world powerup_food2) (reads (world powerup_food2)) - powerupOffTime powerup_food2
          < powerupTimeGap powerup_food2 \<longrightarrow> powerup_pos g2 = (- 1, - 1) \<and> \<not> showPowerup g2"
    by blast
  from p2 v2 q2 have c2: "score2 g2 = 6" "addSegment (snake2 g2)"
    "powerup_pos g2 = (- 1, - 1)" "\<not> showPowerup g2"
    by simp_all
  from r2 c2
  have e2: "\<exists>g'. Game_update powerup_food2 = Some g' \<and> score2 g' = 6 \<and> addSegment (snake2 g')
         \<and> powerup_pos g' = (- 1, - 1) \<and> \<not> showPowerup g'"
    by blast
  from a1(1-4) q1 n1 e1 a2(4) a2(5) q2 f2 e2 show ?thesis
    by (intro conjI) simp_all
qed


section \<open>Reset\<close>

lemma Game_reset_eq:
  "Game_reset g =
     Option.bind (GenRandPos [(6, 9), (5, 9), (4, 9)] [(18, 9), (19, 9), (20, 9)] (world g))
       (\<lambda>r. Some (g\<lparr>snake1 := (snake1 g)\<lparr>direction := (1, 0), body := [(6, 9), (5, 9), (4, 9)]\<rparr>,
                      snake2 := (snake2 g)\<lparr>direction := (- 1, 0),
                                  body := [(18, 9), (19, 9), (20, 9)]\<rparr>,
                      food_pos := fst r, world := snd r, powerup_pos := (- 1, - 1),
                      showPowerup := False, score1 := 0, score2 := 0, running := True,
                      gameOver := False, winnerMessage := []\<rparr>))"
  by (simp add: Game_reset_def Snake_reset_def Vector2Subtract_def split_def)

lemma Game_reset_keeps_addSegment:
  assumes "Game_reset g = Some g'"
  shows "addSegment (snake1 g') = addSegment (snake1 g)"
    and "addSegment (snake2 g') = addSegment (snake2 g)"
  using assms by (auto simp: Game_reset_eq Option.bind_eq_Some_conv)

lemma Game_reset_restores:
  assumes "Game_reset g = Some g'"
  shows "body (snake1 g') = [(6, 9), (5, 9), (4, 9)]" and "direction (snake1 g') = (1, 0)"
    and "body (snake2 g') = [(18, 9), (19, 9), (20, 9)]" and "direction (snake2 g') = (- 1, 0)"
    and "score1 g' = 0" and "score2 g' = 0"
    and "in_grid (food_pos g')"
    and "food_pos g' \<notin> set (body (snake1 g'))" and "food_pos g' \<notin> set (body (snake2 g'))"
    and "powerup_pos g' = (- 1, - 1)" and "\<not> showPowerup g'"
    and "winnerMessage g' = []" and "running g'" and "\<not> gameOver g'"
proof -
  from assms obtain r where
    r: "GenRandPos [(6, 9), (5, 9), (4, 9)] [(18, 9), (19, 9), (20, 9)] (world g) = Some r"
    and g': "g' = g\<lparr>snake1 := (snake1 g)\<lparr>direction := (1, 0), body := [(6, 9), (5, 9), (4, 9)]\<rparr>,
                   snake2 := (snake2 g)\<lparr>direction := (- 1, 0),
                               body := [(18, 9), (19, 9), (20, 9)]\<rparr>,
                   food_pos := fst r, world := snd r, powerup_pos := (- 1, - 1),
                   showPowerup := False, score1 := 0, score2 := 0, running := True,
                   gameOver := False, winnerMessage := []\<rparr>"
    by (auto simp: Game_reset_eq Option.bind_eq_Some_conv)
  from r have "GenRandPos [(6, 9), (5, 9), (4, 9)] [(18, 9), (19, 9), (20, 9)] (world g)
      = Some (fst r, snd r)" by simp
  note free = GenRandPos_Some(1-3)[OF this]
  from g' show "body (snake1 g') = [(6, 9), (5, 9), (4, 9)]" and "direction (snake1 g') = (1, 0)"
    and "body (snake2 g') = [(18, 9), (19, 9), (20, 9)]" and "direction (snake2 g') = (- 1, 0)"
    and "score1 g' = 0" and "score2 g' = 0"
    and "powerup_pos g' = (- 1, - 1)" and "\<not> showPowerup g'"
    and "winnerMessage g' = []" and "running g'" and "\<not> gameOver g'"
    by simp_all
  from g' free show "in_grid (food_pos g')"
    and "food_pos g' \<notin> set (body (snake1 g'))" and "food_pos g' \<notin> set (body (snake2 g'))"
    by (simp_all add: elementInDeque_set)
qed

lemma Game_update_eat_and_win:
  "Game_update eat_and_win = Some (eat_and_win
     \<lparr>snake1 := \<lparr>body = [(7, 9), (6, 9), (5, 9)], direction = (1, 0), addSegment = True\<rparr>,
      snake2 := \<lparr>body = [(- 1, 3), (0, 3), (1, 3)], direction = (- 1, 0),
                 addSegment = False\<rparr>,
      food_pos := (18, 9), score1 := 1,
      running := False, gameOver := True, winnerMessage := ''Player 1 Wins!'',
      world := retry_world\<lparr>drawn := 6, reads := 1\<rparr>\<rparr>)"
  by (simp add: tick_eval eat_and_win_def base_game_def start_body1_def retry_world_def)

lemma Game_reset_eat_and_win:
  "Game_reset (the (Game_update eat_and_win)) = Some (eat_and_win
     \<lparr>snake1 := \<lparr>body = [(6, 9), (5, 9), (4, 9)], direction = (1, 0), addSegment = True\<rparr>,
      snake2 := \<lparr>body = [(18, 9), (19, 9), (20, 9)], direction = (- 1, 0),
                 addSegment = False\<rparr>,
      food_pos := (3, 4), world := retry_world\<lparr>drawn := 8, reads := 1\<rparr>\<rparr>)"
  unfolding Game_update_eat_and_win
  by (simp add: Game_reset_eq GenRandPos_def GenRandPos_loop.simps randomCell_def
      GetRandomValue_def cellCount_def Vector2Equals_def eat_and_win_def base_game_def
      retry_world_def)

lemma Game_update_after_reset:
  "Game_update (the (Game_reset (the (Game_update eat_and_win)))) = Some (eat_and_win
     \<lparr>snake1 := \<lparr>body = [(7, 9), (6, 9), (5, 9), (4, 9)], direction = (1, 0),
                 addSegment = False\<rparr>,
      snake2 := \<lparr>body = [(17, 9), (18, 9), (19, 9)], direction = (- 1, 0),
                 addSegment = False\<rparr>,
      food_pos := (3, 4), world := retry_world\<lparr>drawn := 8, reads := 2\<rparr>\<rparr>)"
  unfolding Game_reset_eat_and_win
  by (simp add: tick_eval eat_and_win_def base_game_def retry_world_def)

text \<open>
  Claim C4, at the input where the code departs from it. \<^verbatim>\<open>Game::reset\<close> does restore
  the two starting poses, the scores, the food, the power-up, the message and the running
  state (lemma \<open>Game_reset_restores\<close>), but \<^verbatim>\<open>Snake::reset\<close> never touches
  \<^verbatim>\<open>addSegment\<close> (lemma \<open>Game_reset_keeps_addSegment\<close>). In \<open>eat_and_win\<close> the first
  snake eats on the tick on which the second leaves the grid: the game is over with growth
  pending, the reset returns and leaves it pending, and after the first tick of the new
  game the first snake has four segments.
\<close>

theorem Game_reset_growth_pending:
  "gameOver (the (Game_update eat_and_win))
   \<and> Game_reset (the (Game_update eat_and_win)) \<noteq> None
   \<and> addSegment (snake1 (the (Game_reset (the (Game_update eat_and_win)))))
   \<and> length (body (snake1 (the (Game_update (the (Game_reset (the (Game_update eat_and_win)))))))) = 4"
  unfolding Game_update_after_reset
  unfolding Game_reset_eat_and_win
  unfolding Game_update_eat_and_win
  by simp

section \<open>The timers of the power-up\<close>

lemma togglePowerupOn_shows_iff:
  assumes "\<not> showPowerup g" and "togglePowerupOn g = Some g'"
  shows "showPowerup g' \<longleftrightarrow>
           clock (world g) (reads (world g)) - powerupOffTime g \<ge> powerupTimeGap g"
  using assms by (auto simp: togglePowerupOn_eq Option.bind_eq_Some_conv split: if_splits)

lemma Game_update_powerup_shown:
  "Game_update powerup_shown = Some (powerup_shown
     \<lparr>snake1 := \<lparr>body = [(7, 9), (6, 9), (5, 9)], direction = (1, 0), addSegment = False\<rparr>,
      snake2 := \<lparr>body = [(17, 9), (18, 9), (19, 9)], direction = (- 1, 0),
                 addSegment = False\<rparr>,
      powerup_pos := (- 1, - 1), showPowerup := False, powerupOnTime := 25,
      world := (world powerup_shown)\<lparr>reads := 2\<rparr>\<rparr>)"
  by (simp add: tick_eval powerup_shown_def base_game_def start_body1_def start_body2_def
      retry_world_def)

lemma Game_update_powerup_shown2:
  "Game_update (the (Game_update powerup_shown)) = Some (powerup_shown
     \<lparr>snake1 := \<lparr>body = [(8, 9), (7, 9), (6, 9)], direction = (1, 0), addSegment = False\<rparr>,
      snake2 := \<lparr>body = [(16, 9), (17, 9), (18, 9)], direction = (- 1, 0),
                 addSegment = False\<rparr>,
      powerup_pos := (5, 9), showPowerup := True, powerupOnTime := 30, powerupOffTime := 30,
      world := (world powerup_shown)\<lparr>drawn := 4, reads := 4\<rparr>\<rparr>)"
  unfolding Game_update_powerup_shown
  by (simp add: tick_eval powerup_shown_def base_game_def retry_world_def)

text \<open>
  Claim C5, at the input where the code departs from it. The power-up of
  \<open>powerup_shown\<close> was shown at time 15 and the gap is 15. The tick at time 25 hides it
  and deactivates its position, as the claim says. Hiding does not store the time in
  \<^verbatim>\<open>powerupOffTime\<close> (lemma \<open>togglePowerupOff_frame\<close>), which still holds the time of
  the last appearance, so the tick at time 30 shows the power-up again, 5 time units after
  it was hidden and not 15.
\<close>

theorem powerup_reappears_early:
  "showPowerup powerup_shown
   \<and> Game_update powerup_shown \<noteq> None
   \<and> \<not> showPowerup (the (Game_update powerup_shown))
   \<and> powerup_pos (the (Game_update powerup_shown)) = (- 1, - 1)
   \<and> showPowerup (the (Game_update (the (Game_update powerup_shown))))
   \<and> clock (world powerup_shown) 0 = 25 \<and> clock (world powerup_shown) 2 = 30
   \<and> powerupTimeGap (the (Game_update powerup_shown)) = 15"
  unfolding Game_update_powerup_shown2
  unfolding Game_update_powerup_shown
  by (simp add: powerup_shown_def base_game_def)

section \<open>The power-up after construction\<close>

lemma Game_init_eval:
  "Game_init init_world = Some
     \<lparr>snake1 = \<lparr>body = [(6, 9), (5, 9), (4, 9)], direction = (1, 0), addSegment = False\<rparr>,
      snake2 = \<lparr>body = [(18, 9), (19, 9), (20, 9)], direction = (- 1, 0), addSegment = False\<rparr>,
      food_pos = (0, 0), powerup_pos = (7, 9), running = True, score1 = 0, score2 = 0,
      showPowerup = False, powerupOnTime = 0, powerupOffTime = 0, powerupTimeGap = 15,
      gameUpdateTime = 0, gameOver = False, allowMove = False, winnerMessage = [],
      world = init_world\<lparr>drawn := 5\<rparr>\<rparr>"
  by (simp add: Game_init_def Snake_init_def Vector2Subtract_def GenRandPos_def
      GenRandPos_loop.simps randomCell_def GetRandomValue_def cellCount_def Vector2Equals_def
      init_world_def)

lemma Game_update_after_init:
  "Game_update (the (Game_init init_world)) = Some
     \<lparr>snake1 = \<lparr>body = [(7, 9), (6, 9), (5, 9)], direction = (1, 0), addSegment = True\<rparr>,
      snake2 = \<lparr>body = [(17, 9), (18, 9), (19, 9)], direction = (- 1, 0), addSegment = False\<rparr>,
      food_pos = (0, 0), powerup_pos = (- 1, - 1), running = True, score1 = 5, score2 = 0,
      showPowerup = False, powerupOnTime = 0, powerupOffTime = 0, powerupTimeGap = 15,
      gameUpdateTime = 0, gameOver = False, allowMove = False, winnerMessage = [],
      world = init_world\<lparr>drawn := 5, reads := 1\<rparr>\<rparr>"
  unfolding Game_init_eval
  by (simp add: tick_eval init_world_def)

lemma Game_init_powerup:
  assumes "Game_init w = Some g"
  shows "\<not> showPowerup g" and "in_grid (powerup_pos g)" and "powerup_pos g \<noteq> (- 1, - 1)"
proof -
  from assms obtain r1 :: "Vector2 \<times> World" and r2 where
    r2: "GenRandPos (body (Snake_init (6, 9) (1, 0))) (body (Snake_init (18, 9) (- 1, 0)))
           (snd r1) = Some r2"
    and g: "powerup_pos g = fst r2" "showPowerup g = False"
    by (auto simp: Game_init_def Let_def split_def Option.bind_eq_Some_conv)
  from r2 have "GenRandPos (body (Snake_init (6, 9) (1, 0)))
       (body (Snake_init (18, 9) (- 1, 0))) (snd r1) = Some (fst r2, snd r2)" by simp
  from GenRandPos_Some(1)[OF this] g
  show "\<not> showPowerup g" and grid: "in_grid (powerup_pos g)" by simp_all
  from grid show "powerup_pos g \<noteq> (- 1, - 1)" by (auto simp: in_grid_def)
qed

text \<open>
  Claim C9, at the input where the code departs from it. The constructor places the
  power-up on a cell of the grid while \<^verbatim>\<open>showPowerup\<close> is false (lemma
  \<open>Game_init_powerup\<close>, for every world), so the hidden power-up is not at the sentinel.
  In the world \<open>init_world\<close> it lies on \<open>(7, 9)\<close>, one cell ahead of the first snake,
  and the first tick gives that snake 5 points and growth for a power-up that was never
  shown.
\<close>

theorem hidden_powerup_after_construction:
  "Game_init init_world \<noteq> None
   \<and> \<not> showPowerup (the (Game_init init_world))
   \<and> powerup_pos (the (Game_init init_world)) = (7, 9)
   \<and> score1 (the (Game_init init_world)) = 0
   \<and> Game_update (the (Game_init init_world)) \<noteq> None
   \<and> score1 (the (Game_update (the (Game_init init_world)))) = 5
   \<and> addSegment (snake1 (the (Game_update (the (Game_init init_world)))))"
  unfolding Game_update_after_init
  unfolding Game_init_eval
  by simp

end
